theory Spec2Isabelle
  imports Main "HOL-Library.Sublist"
begin

text \<open>
  A shallow embedding of the Browserbase plugin's configuration parser and merger
  (\<^verbatim>\<open>config.ts\<close>), of its display and export helpers (\<^verbatim>\<open>config-store.ts\<close>) and of its skill
  synchroniser (\<^verbatim>\<open>skills-sync.ts\<close>, in its per-file and its archive revision), with the
  properties C1 to C10 of these functions.
\<close>

section \<open>JavaScript values, strings and the process environment\<close>

text \<open>
  The configuration parser takes a value of type \<^verbatim>\<open>unknown\<close>. The values it can tell
  apart are modelled by \<open>jsval\<close>; an object is the list of its own enumerable string-keyed
  properties in the order \<^verbatim>\<open>Object.keys\<close> lists them. Numbers are never inspected by the
  code, so their payload is an integer. A string is a list of code units; the code units
  modelled are those below 256.
\<close>

datatype jsval =
    JUndefined
  | JNull
  | JBool bool
  | JNum int
  | JStr string
  | JArr "jsval list"
  | JObj "(string \<times> jsval) list"

datatype jstype = TUndefined | TObject | TBoolean | TNumber | TString

fun typeof :: "jsval \<Rightarrow> jstype" where
  "typeof JUndefined = TUndefined"
| "typeof JNull = TObject"
| "typeof (JBool b) = TBoolean"
| "typeof (JNum n) = TNumber"
| "typeof (JStr s) = TString"
| "typeof (JArr xs) = TObject"
| "typeof (JObj kvs) = TObject"

fun isArray :: "jsval \<Rightarrow> bool" where
  "isArray (JArr xs) = True"
| "isArray v = False"

text \<open>
  \<^verbatim>\<open>process.env\<close>: a variable is unset (\<open>None\<close>) or holds a string, possibly empty.
  The object inherits from \<^verbatim>\<open>Object.prototype\<close>, so the read \<^verbatim>\<open>process.env[name]\<close> of a
  name that is not a variable yields the member of \<^verbatim>\<open>Object.prototype\<close> of that name when
  there is one, and \<^verbatim>\<open>undefined\<close> otherwise. \<open>OBJECT_PROTOTYPE\<close> lists these members
  with the text their conversion to a string gives: the source text of a built-in function,
  and \<^verbatim>\<open>[object Object]\<close> for the prototype object that \<^verbatim>\<open>__proto__\<close> yields.
\<close>

type_synonym env = "string \<rightharpoonup> string"

datatype env_value = EUndefined | EString string | EMember string

definition native_function :: "string \<Rightarrow> string" where
  "native_function name = ''function '' @ name @ ''() { [native code] }''"

definition OBJECT_PROTOTYPE :: "(string \<times> string) list" where
  "OBJECT_PROTOTYPE =
     [(''constructor'', native_function ''Object''),
      (''__defineGetter__'', native_function ''__defineGetter__''),
      (''__defineSetter__'', native_function ''__defineSetter__''),
      (''hasOwnProperty'', native_function ''hasOwnProperty''),
      (''__lookupGetter__'', native_function ''__lookupGetter__''),
      (''__lookupSetter__'', native_function ''__lookupSetter__''),
      (''isPrototypeOf'', native_function ''isPrototypeOf''),
      (''propertyIsEnumerable'', native_function ''propertyIsEnumerable''),
      (''toString'', native_function ''toString''),
      (''valueOf'', native_function ''valueOf''),
      (''__proto__'', ''[object Object]''),
      (''toLocaleString'', native_function ''toLocaleString'')]"

definition process_env_get :: "env \<Rightarrow> string \<Rightarrow> env_value" where
  "process_env_get env name =
     (case env name of
        Some v \<Rightarrow> EString v
      | None \<Rightarrow> (case map_of OBJECT_PROTOTYPE name of
                   Some t \<Rightarrow> EMember t
                 | None \<Rightarrow> EUndefined))"

text \<open>The test \<^verbatim>\<open>!envValue\<close> is the negation of \<open>truthy\<close>; \<open>to_string\<close> is the text a
  truthy value contributes when the replace callback returns it.\<close>

fun truthy :: "env_value \<Rightarrow> bool" where
  "truthy EUndefined = False"
| "truthy (EString v) = (v \<noteq> [])"
| "truthy (EMember t) = True"

fun to_string :: "env_value \<Rightarrow> string" where
  "to_string EUndefined = ''undefined''"
| "to_string (EString v) = v"
| "to_string (EMember t) = t"

text \<open>
  \<^verbatim>\<open>String.prototype.trim\<close> and the regular expression class \<^verbatim>\<open>\s\<close> share one set of
  characters: white space and line terminators. Below 256 these are TAB, LF, VT, FF, CR,
  SPACE and NBSP.
\<close>

definition is_js_space :: "char \<Rightarrow> bool" where
  "is_js_space c = (c = CHR 0x09 \<or> c = CHR 0x0A \<or> c = CHR 0x0B \<or> c = CHR 0x0C
      \<or> c = CHR 0x0D \<or> c = CHR 0x20 \<or> c = CHR 0xA0)"

definition trim :: "string \<Rightarrow> string" where
  "trim s = rev (dropWhile is_js_space (rev (dropWhile is_js_space s)))"

text \<open>\<^verbatim>\<open>xs.join(sep)\<close> on an array of strings.\<close>

fun join :: "string \<Rightarrow> string list \<Rightarrow> string" where
  "join sep [] = []"
| "join sep [x] = x"
| "join sep (x # y # ys) = x @ sep @ join sep (y # ys)"

text \<open>\<^verbatim>\<open>s.replace(/c/g, r)\<close> for a single-character pattern \<open>c\<close> and a fixed replacement.\<close>

definition replace_all :: "char \<Rightarrow> string \<Rightarrow> string \<Rightarrow> string" where
  "replace_all c r s = concat (map (\<lambda>x. if x = c then r else [x]) s)"

text \<open>The nullish coalescing operator \<^verbatim>\<open>a ?? b\<close>, for an optional and for a total right operand.\<close>

fun nullish_opt :: "'a option \<Rightarrow> 'a option \<Rightarrow> 'a option" where
  "nullish_opt (Some v) b = Some v"
| "nullish_opt None b = b"

fun nullish :: "'a option \<Rightarrow> 'a \<Rightarrow> 'a" where
  "nullish (Some v) b = v"
| "nullish None b = b"

section \<open>config.ts\<close>

record BrowserbaseConfig =
  apiKey :: "string option"
  projectId :: "string option"
  baseUrl :: string
  promptOnStart :: "bool option"
  autoSyncSkills :: "bool option"

definition DEFAULT_BASE_URL :: string where
  "DEFAULT_BASE_URL = ''https://api.browserbase.com''"

definition ALLOWED_KEYS :: "string list" where
  "ALLOWED_KEYS = [''apiKey'', ''projectId'', ''baseUrl'', ''promptOnStart'', ''autoSyncSkills'']"

text \<open>
  The two errors the module raises: \<open>UnknownKeys label unknown\<close> from
  \<^verbatim>\<open>assertAllowedKeys\<close> and \<open>EnvNotSet envVar\<close> from \<^verbatim>\<open>resolveEnvVars\<close>.
  \<open>message\<close> is the text given to \<^verbatim>\<open>new Error\<close>.
\<close>

datatype error = UnknownKeys string "string list" | EnvNotSet string

fun message :: "error \<Rightarrow> string" where
  "message (UnknownKeys label unknown) = label @ '' has unknown keys: '' @ join '', '' unknown"
| "message (EnvNotSet envVar) = ''Environment variable '' @ envVar @ '' is not set''"

definition isRecord :: "jsval \<Rightarrow> bool" where
  "isRecord v = (typeof v = TObject \<and> v \<noteq> JNull \<and> \<not> isArray v)"

fun entries :: "jsval \<Rightarrow> (string \<times> jsval) list" where
  "entries (JObj kvs) = kvs"
| "entries v = []"

definition keys :: "(string \<times> jsval) list \<Rightarrow> string list" where
  "keys cfg = map fst cfg"

text \<open>Property read \<^verbatim>\<open>cfg.k\<close>: \<^verbatim>\<open>undefined\<close> when the object has no such property.\<close>

definition js_get :: "(string \<times> jsval) list \<Rightarrow> string \<Rightarrow> jsval" where
  "js_get cfg k = (case map_of cfg k of None \<Rightarrow> JUndefined | Some v \<Rightarrow> v)"

text \<open>The local \<^verbatim>\<open>unknown\<close> of \<^verbatim>\<open>assertAllowedKeys\<close>.\<close>

definition unknownKeys :: "(string \<times> jsval) list \<Rightarrow> string list" where
  "unknownKeys v = filter (\<lambda>key. key \<notin> set ALLOWED_KEYS) (keys v)"

definition assertAllowedKeys :: "(string \<times> jsval) list \<Rightarrow> string \<Rightarrow> error + unit" where
  "assertAllowedKeys v label =
     (let unknown = unknownKeys v
      in if length unknown > 0 then Inl (UnknownKeys label unknown) else Inr ())"

text \<open>
  The pattern \<^verbatim>\<open>/\$\{([^}]+)\}/g\<close>. \<open>split_brace\<close> cuts a string at its first closing
  brace; \<open>match_placeholder s\<close> is the match anchored at the head of \<open>s\<close>: the captured
  name (one or more characters, none a closing brace) and what follows the match.
\<close>

fun split_brace :: "string \<Rightarrow> (string \<times> string) option" where
  "split_brace [] = None"
| "split_brace (c # cs) =
     (if c = CHR ''}'' then Some ([], cs)
      else (case split_brace cs of None \<Rightarrow> None | Some (n, r) \<Rightarrow> Some (c # n, r)))"

fun match_placeholder :: "string \<Rightarrow> (string \<times> string) option" where
  "match_placeholder (a # b # cs) =
     (if a = CHR ''$'' \<and> b = CHR ''{'' then
        (case split_brace cs of
           None \<Rightarrow> None
         | Some (n, r) \<Rightarrow> if n = [] then None else Some (n, r))
      else None)"
| "match_placeholder s = None"

lemma split_brace_length: "split_brace s = Some (n, r) \<Longrightarrow> length r < length s"
  by (induction s arbitrary: n r) (auto split: if_splits option.splits)

lemma match_placeholder_length:
  "match_placeholder s = Some (n, r) \<Longrightarrow> length r < length s"
  by (cases s rule: match_placeholder.cases)
    (auto split: if_splits option.splits dest: split_brace_length)

text \<open>
  \<^verbatim>\<open>resolveEnvVars\<close>: the global replace scans left to right; at each match the callback
  reads \<^verbatim>\<open>process.env[envVar]\<close> and throws when the value is falsy (\<^verbatim>\<open>!envValue\<close>:
  \<^verbatim>\<open>undefined\<close> or the empty string); otherwise the value, as a string, replaces the
  match. The replacement text is not scanned again.
\<close>

function resolveEnvVars :: "env \<Rightarrow> string \<Rightarrow> error + string" where
  "resolveEnvVars env [] = Inr []"
| "resolveEnvVars env (c # cs) =
     (case match_placeholder (c # cs) of
        Some (envVar, r) \<Rightarrow>
          (let envValue = process_env_get env envVar
           in if \<not> truthy envValue then Inl (EnvNotSet envVar)
              else (case resolveEnvVars env r of
                      Inl e \<Rightarrow> Inl e
                    | Inr out \<Rightarrow> Inr (to_string envValue @ out)))
      | None \<Rightarrow>
          (case resolveEnvVars env cs of
             Inl e \<Rightarrow> Inl e
           | Inr out \<Rightarrow> Inr (c # out)))"
  by pat_completeness auto
termination
proof (relation "measure (\<lambda>(env, s). length s)")
  show "wf (measure (\<lambda>(env, s). length s))" by simp
next
  fix env :: env and c cs x2 envVar r
  assume "match_placeholder (c # cs) = Some x2" "(envVar, r) = x2"
  then have "length r < length (c # cs)"
    using match_placeholder_length [of "c # cs" envVar r] by simp
  then show "((env, r), env, c # cs) \<in> measure (\<lambda>(env, s). length s)" by simp
next
  fix env :: env and c :: char and cs
  show "((env, cs), env, c # cs) \<in> measure (\<lambda>(env, s). length s)" by simp
qed

text \<open>
  The names captured by the successive matches of the pattern in a string, left to right:
  the placeholders the string contains.
\<close>

function placeholders :: "string \<Rightarrow> string list" where
  "placeholders [] = []"
| "placeholders (c # cs) =
     (case match_placeholder (c # cs) of
        Some (envVar, r) \<Rightarrow> envVar # placeholders r
      | None \<Rightarrow> placeholders cs)"
  by pat_completeness auto
termination
proof (relation "measure length")
  show "wf (measure length)" by simp
next
  fix c :: char and cs x2 envVar r
  assume "match_placeholder (c # cs) = Some x2" "(envVar, r) = x2"
  then have "length r < length (c # cs)"
    using match_placeholder_length [of "c # cs" envVar r] by simp
  then show "(r, c # cs) \<in> measure length" by simp
next
  fix c :: char and cs
  show "(cs, c # cs) \<in> measure length" by simp
qed

text \<open>
  A name the callback of \<^verbatim>\<open>resolveEnvVars\<close> accepts: the read of \<^verbatim>\<open>process.env\<close> at that
  name is truthy. This is so for a variable that is set and not empty, and for a name that
  is not a variable but a member of \<^verbatim>\<open>Object.prototype\<close>.
\<close>

definition env_set :: "env \<Rightarrow> string \<Rightarrow> bool" where
  "env_set env envVar = truthy (process_env_get env envVar)"

text \<open>
  A source value from which \<^verbatim>\<open>parseOptionalString\<close> yields no string: it is not a
  string, it is blank after trimming, or one of its placeholders names something the
  callback rejects.
\<close>

definition no_explicit_value :: "env \<Rightarrow> jsval \<Rightarrow> bool" where
  "no_explicit_value env v =
     (case v of
        JStr s \<Rightarrow> trim s = [] \<or> (\<exists>n \<in> set (placeholders s). \<not> env_set env n)
      | _ \<Rightarrow> True)"

definition parseOptionalString :: "env \<Rightarrow> jsval \<Rightarrow> error + string option" where
  "parseOptionalString env v =
     (case v of
        JStr s \<Rightarrow>
          (let trimmed = trim s in
           if trimmed = [] then Inr None
           else (case resolveEnvVars env trimmed of Inl e \<Rightarrow> Inl e | Inr r \<Rightarrow> Inr (Some r)))
      | _ \<Rightarrow> Inr None)"

definition parseBaseUrl :: "env \<Rightarrow> jsval \<Rightarrow> error + string" where
  "parseBaseUrl env v =
     (case v of
        JStr s \<Rightarrow>
          (let trimmed = trim s in
           if trimmed = [] then Inr DEFAULT_BASE_URL
           else resolveEnvVars env trimmed)
      | _ \<Rightarrow> Inr DEFAULT_BASE_URL)"

text \<open>\<^verbatim>\<open>typeof v === "boolean" ? v : undefined\<close>\<close>

fun boolean_or_undefined :: "jsval \<Rightarrow> bool option" where
  "boolean_or_undefined (JBool b) = Some b"
| "boolean_or_undefined v = None"

text \<open>
  The two \<^verbatim>\<open>try\<close>/\<^verbatim>\<open>catch\<close> blocks of \<^verbatim>\<open>parseConfig\<close>: a throw of
  \<^verbatim>\<open>parseOptionalString\<close> is caught and the environment variable is read instead. The
  two names read, \<^verbatim>\<open>BROWSERBASE_API_KEY\<close> and \<^verbatim>\<open>BROWSERBASE_PROJECT_ID\<close>, are not members
  of \<^verbatim>\<open>Object.prototype\<close>, so the read yields the variable's string or \<^verbatim>\<open>undefined\<close>
  (lemma \<open>process_env_get_credentials\<close>).
\<close>

definition credential :: "env \<Rightarrow> jsval \<Rightarrow> string \<Rightarrow> string option" where
  "credential env v envVar =
     (case parseOptionalString env v of
        Inr r \<Rightarrow> nullish_opt r (env envVar)
      | Inl e \<Rightarrow> env envVar)"

definition parseConfig :: "env \<Rightarrow> jsval \<Rightarrow> error + BrowserbaseConfig" where
  "parseConfig env raw =
     (let cfg = (if isRecord raw then entries raw else [])
      in case (if length (keys cfg) > 0 then assertAllowedKeys cfg ''browserbase config''
               else Inr ()) of
           Inl e \<Rightarrow> Inl e
         | Inr u \<Rightarrow>
            (let ak = credential env (js_get cfg ''apiKey'') ''BROWSERBASE_API_KEY'';
                 pid = credential env (js_get cfg ''projectId'') ''BROWSERBASE_PROJECT_ID''
             in case parseBaseUrl env (js_get cfg ''baseUrl'') of
                  Inl e \<Rightarrow> Inl e
                | Inr url \<Rightarrow>
                    Inr \<lparr> apiKey = ak, projectId = pid, baseUrl = url,
                          promptOnStart = boolean_or_undefined (js_get cfg ''promptOnStart''),
                          autoSyncSkills = boolean_or_undefined (js_get cfg ''autoSyncSkills'') \<rparr>))"

definition mergeConfig :: "BrowserbaseConfig \<Rightarrow> BrowserbaseConfig \<Rightarrow> BrowserbaseConfig" where
  "mergeConfig primary fallback =
     \<lparr> apiKey = nullish_opt (apiKey primary) (apiKey fallback),
       projectId = nullish_opt (projectId primary) (projectId fallback),
       baseUrl = nullish (Some (baseUrl primary)) (baseUrl fallback),
       promptOnStart = nullish_opt (promptOnStart primary) (promptOnStart fallback),
       autoSyncSkills = nullish_opt (autoSyncSkills primary) (autoSyncSkills fallback) \<rparr>"

section \<open>config-store.ts\<close>

text \<open>
  \<^verbatim>\<open>maskSecret\<close> takes \<^verbatim>\<open>string | undefined\<close>: \<open>None\<close> is \<^verbatim>\<open>undefined\<close>. The test
  \<^verbatim>\<open>!value\<close> holds for \<^verbatim>\<open>undefined\<close> and for the empty string. \<^verbatim>\<open>slice(0, 4)\<close> is
  \<open>take 4\<close> and \<^verbatim>\<open>slice(-4)\<close> keeps the last four code units.
\<close>

definition maskSecret :: "string option \<Rightarrow> string" where
  "maskSecret v =
     (case v of
        None \<Rightarrow> ''not set''
      | Some s \<Rightarrow>
          if s = [] then ''not set''
          else if length s \<le> 8 then replicate (max 4 (length s)) (CHR ''*'')
          else take 4 s @ ''...'' @ drop (length s - 4) s)"

text \<open>
  The character class of the test in \<^verbatim>\<open>dotenvEscape\<close>: white space, both quotes, the
  hash, the equals sign and the backslash. \<open>CHR 0x22\<close> is the double quote,
  \<open>CHR 0x27\<close> the single quote, \<open>CHR 0x5C\<close> the backslash, \<open>CHR 0x0A\<close> and
  \<open>CHR 0x0D\<close> are line feed and carriage return.
\<close>

definition quote_class :: "char \<Rightarrow> bool" where
  "quote_class c = (is_js_space c \<or> c = CHR 0x22 \<or> c = CHR 0x27 \<or> c = CHR ''#''
      \<or> c = CHR ''='' \<or> c = CHR 0x5C)"

definition dotenvEscape :: "string \<Rightarrow> string" where
  "dotenvEscape v =
     (if list_ex quote_class v \<or> CHR 0x0A \<in> set v \<or> CHR 0x0D \<in> set v then
        [CHR 0x22] @
        replace_all (CHR 0x0D) [CHR 0x5C, CHR ''r'']
          (replace_all (CHR 0x0A) [CHR 0x5C, CHR ''n'']
            (replace_all (CHR 0x22) [CHR 0x5C, CHR 0x22]
              (replace_all (CHR 0x5C) [CHR 0x5C, CHR 0x5C] v))) @
        [CHR 0x22]
      else v)"

text \<open>
  The specification's wording of \<^verbatim>\<open>dotenvEscape\<close>, to compare with the code: the
  characters that force quoting, and the escape of one character in a single pass.
\<close>

definition spec_needs_quotes :: "string \<Rightarrow> bool" where
  "spec_needs_quotes v =
     (\<exists>c \<in> set v. is_js_space c \<or> c = CHR 0x27 \<or> c = CHR 0x22 \<or> c = CHR ''#''
        \<or> c = CHR ''='' \<or> c = CHR 0x5C \<or> c = CHR 0x0A \<or> c = CHR 0x0D)"

definition spec_escape_char :: "char \<Rightarrow> string" where
  "spec_escape_char c =
     (if c = CHR 0x5C then [CHR 0x5C, CHR 0x5C]
      else if c = CHR 0x22 then [CHR 0x5C, CHR 0x22]
      else if c = CHR 0x0A then [CHR 0x5C, CHR ''n'']
      else if c = CHR 0x0D then [CHR 0x5C, CHR ''r'']
      else [c])"

text \<open>A non-negative integer in a template string: its decimal digits.\<close>

definition digits :: string where
  "digits = ''0123456789''"

fun show_nat :: "nat \<Rightarrow> string" where
  "show_nat n = (if n < 10 then [digits ! n] else show_nat (n div 10) @ [digits ! (n mod 10)])"

declare show_nat.simps [simp del]

section \<open>skills-sync.ts\<close>

text \<open>
  The file system is a map from path strings to nodes, keyed by the strings the code passes
  to it; these come out of \<^verbatim>\<open>path.join\<close> and \<^verbatim>\<open>path.resolve\<close> and so are in normal form.
  Paths are POSIX paths and there are no symbolic links. \<^verbatim>\<open>fs.existsSync\<close> holds for files
  and directories alike. A call on the file system rejects when what stands in the file
  system forbids it; rejections for reasons the map does not hold (permissions, quotas,
  devices) are not modelled. An omitted \<^verbatim>\<open>targetRoot\<close> argument of
  \<^verbatim>\<open>hasBrowserbaseSkills\<close> and \<^verbatim>\<open>expectedSkillFiles\<close> defaults to
  \<^verbatim>\<open>defaultSkillsRoot()\<close>; in the model the caller passes the directory. The headers of a
  request are left out: the code under study does not depend on them.
\<close>

datatype node = File string | Directory

type_synonym filesystem = "string \<rightharpoonup> node"

definition existsSync :: "filesystem \<Rightarrow> string \<Rightarrow> bool" where
  "existsSync fs p = (fs p \<noteq> None)"

subsection \<open>The path module\<close>

text \<open>
  \<^verbatim>\<open>path.normalize\<close>, \<^verbatim>\<open>path.join\<close>, \<^verbatim>\<open>path.resolve\<close> and \<^verbatim>\<open>path.dirname\<close> as the
  runtime defines them for POSIX paths. \<open>split_slash\<close> cuts a string at its separators.
  \<open>normalizeString\<close> walks the segments from left to right, \<open>normalize_segment\<close> being
  one step on the segments kept so far: an empty segment and \<^verbatim>\<open>.\<close> are dropped; \<^verbatim>\<open>..\<close>
  removes the segment before it when there is one that is not itself \<^verbatim>\<open>..\<close>, and otherwise
  is kept when the path is relative (\<open>allowAboveRoot\<close>) and dropped when it is absolute.
  \<^verbatim>\<open>path.join\<close> joins its non-empty arguments with the separator and normalises the result.
  \<^verbatim>\<open>path.resolve\<close> takes its arguments from the right, and the working directory after
  them, until the path is absolute (\<open>resolve_loop\<close>), and normalises without trailing
  separator. \<^verbatim>\<open>path.dirname\<close> scans from the right, past trailing separators and past the
  last segment, and cuts at the separator it finds.
\<close>

fun split_slash :: "string \<Rightarrow> string list" where
  "split_slash [] = [[]]"
| "split_slash (c # cs) =
     (if c = CHR ''/'' then [] # split_slash cs
      else (case split_slash cs of [] \<Rightarrow> [[c]] | s # ss \<Rightarrow> (c # s) # ss))"

definition normalize_segment :: "bool \<Rightarrow> string list \<Rightarrow> string \<Rightarrow> string list" where
  "normalize_segment allowAboveRoot res segment =
     (if segment = [] \<or> segment = ''.'' then res
      else if segment = ''..'' then
        (if res \<noteq> [] \<and> last res \<noteq> ''..'' then butlast res
         else if allowAboveRoot then res @ [''..'']
         else res)
      else res @ [segment])"

definition normalizeString :: "string \<Rightarrow> bool \<Rightarrow> string" where
  "normalizeString path allowAboveRoot =
     join ''/'' (foldl (normalize_segment allowAboveRoot) [] (split_slash path))"

definition path_normalize :: "string \<Rightarrow> string" where
  "path_normalize path =
     (if path = [] then ''.''
      else
        (let isAbsolute = (hd path = CHR ''/'');
             trailingSeparator = (last path = CHR ''/'');
             p = normalizeString path (\<not> isAbsolute)
         in if p = [] then (if isAbsolute then ''/'' else if trailingSeparator then ''./'' else ''.'')
            else (if isAbsolute then ''/'' else []) @ p @ (if trailingSeparator then ''/'' else [])))"

definition path_join :: "string list \<Rightarrow> string" where
  "path_join args =
     (let joined = join ''/'' (filter (\<lambda>arg. arg \<noteq> []) args)
      in if joined = [] then ''.'' else path_normalize joined)"

fun resolve_loop :: "string list \<Rightarrow> string \<Rightarrow> string \<times> bool" where
  "resolve_loop [] resolvedPath = (resolvedPath, False)"
| "resolve_loop (path # rest) resolvedPath =
     (if path = [] then resolve_loop rest resolvedPath
      else if hd path = CHR ''/'' then (path @ ''/'' @ resolvedPath, True)
      else resolve_loop rest (path @ ''/'' @ resolvedPath))"

definition path_resolve :: "string \<Rightarrow> string list \<Rightarrow> string" where
  "path_resolve cwd args =
     (case resolve_loop (rev args @ [cwd]) [] of
        (resolvedPath, resolvedAbsolute) \<Rightarrow>
          (let p = normalizeString resolvedPath (\<not> resolvedAbsolute)
           in if resolvedAbsolute then ''/'' @ p else if p \<noteq> [] then p else ''.''))"

definition dirname :: "string \<Rightarrow> string" where
  "dirname path =
     (if path = [] then ''.''
      else
        (let hasRoot = (hd path = CHR ''/'');
             scanned = dropWhile (\<lambda>c. c \<noteq> CHR ''/'')
                         (dropWhile (\<lambda>c. c = CHR ''/'') (rev (tl path)))
         in if scanned = [] then (if hasRoot then ''/'' else ''.'')
            else if hasRoot \<and> length scanned = 1 then ''//''
            else take (length scanned) path))"

subsection \<open>The calls on the file system\<close>

text \<open>
  The errors with which the runtime rejects a call because of what stands in the file
  system, each with the path of the call: something that is not a directory stands where a
  directory is to be made (\<open>EEXIST\<close>) or above it (\<open>ENOTDIR\<close>), a directory stands where
  a file is to be written or renamed to (\<open>EISDIR\<close>).
\<close>

datatype fs_error = EEXIST string | ENOTDIR string | EISDIR string

text \<open>
  \<open>ancestors d\<close> are the directories on the way down to \<open>d\<close>, \<open>d\<close> last: the ones
  \<^verbatim>\<open>mkdir(d, { recursive: true })\<close> needs, and makes when absent. The call rejects, and
  makes nothing, when a regular file stands at one of them. \<^verbatim>\<open>writeFile\<close> and
  \<^verbatim>\<open>rename\<close> are called by \<^verbatim>\<open>writeFileAtomic\<close> on paths in the directory that
  \<^verbatim>\<open>mkdir\<close> has just made, so the rejection for a missing directory is not a branch
  of theirs.
\<close>

definition ancestors :: "string \<Rightarrow> string list" where
  "ancestors d = filter (\<lambda>a. a \<noteq> [] \<and> (a = d \<or> d ! length a = CHR ''/'')) (prefixes d)"

fun mkdir_each :: "filesystem \<Rightarrow> string \<Rightarrow> string list \<Rightarrow> fs_error + filesystem" where
  "mkdir_each fs d [] = Inr fs"
| "mkdir_each fs d (a # as) =
     (case fs a of
        None \<Rightarrow> mkdir_each (fs(a \<mapsto> Directory)) d as
      | Some Directory \<Rightarrow> mkdir_each fs d as
      | Some (File c) \<Rightarrow> Inl (if a = d then EEXIST d else ENOTDIR d))"

definition mkdir_recursive :: "filesystem \<Rightarrow> string \<Rightarrow> fs_error + filesystem" where
  "mkdir_recursive fs d = mkdir_each fs d (ancestors d)"

definition writeFile :: "filesystem \<Rightarrow> string \<Rightarrow> string \<Rightarrow> fs_error + filesystem" where
  "writeFile fs p content =
     (if fs p = Some Directory then Inl (EISDIR p) else Inr (fs(p \<mapsto> File content)))"

definition rename :: "filesystem \<Rightarrow> string \<Rightarrow> string \<Rightarrow> fs_error + filesystem" where
  "rename fs old new =
     (if fs new = Some Directory then Inl (EISDIR new) else Inr ((fs(old := None))(new := fs old)))"

subsection \<open>The per-file revision (fetches five files)\<close>

definition SKILLS_REPO_RAW_BASE :: string where
  "SKILLS_REPO_RAW_BASE = ''https://raw.githubusercontent.com/browserbase/skills''"

definition DEFAULT_SKILLS_REF :: string where
  "DEFAULT_SKILLS_REF = ''main''"

record skill_file =
  sourcePath :: string
  destinationPath :: string

definition SKILL_FILE_MAP :: "skill_file list" where
  "SKILL_FILE_MAP =
     [\<lparr> sourcePath = ''skills/browser-automation/SKILL.md'',
        destinationPath = path_join [''browser-automation'', ''SKILL.md''] \<rparr>,
      \<lparr> sourcePath = ''skills/browser-automation/EXAMPLES.md'',
        destinationPath = path_join [''browser-automation'', ''EXAMPLES.md''] \<rparr>,
      \<lparr> sourcePath = ''skills/browser-automation/REFERENCE.md'',
        destinationPath = path_join [''browser-automation'', ''REFERENCE.md''] \<rparr>,
      \<lparr> sourcePath = ''skills/browser-automation/setup.json'',
        destinationPath = path_join [''browser-automation'', ''setup.json''] \<rparr>,
      \<lparr> sourcePath = ''skills/functions/SKILL.md'',
        destinationPath = path_join [''functions'', ''SKILL.md''] \<rparr>]"

record SkillSyncResult =
  targetRoot :: string
  ref :: string
  filesWritten :: "string list"

text \<open>
  What the module reads from its process: the home directory, the working directory, the
  process id and the clock (\<^verbatim>\<open>Date.now()\<close> at the moment the given file is written).
\<close>

record runtime =
  homedir :: string
  cwd :: string
  pid :: nat
  now :: "string \<Rightarrow> nat"

definition defaultSkillsRoot :: "runtime \<Rightarrow> string" where
  "defaultSkillsRoot rt = path_join [homedir rt, ''.openclaw'', ''skills'']"

definition resolveSkillsRoot :: "runtime \<Rightarrow> string option \<Rightarrow> string" where
  "resolveSkillsRoot rt explicitPath =
     (case explicitPath of
        Some p \<Rightarrow>
          if trim p \<noteq> [] then path_resolve (cwd rt) [cwd rt, trim p] else defaultSkillsRoot rt
      | None \<Rightarrow> defaultSkillsRoot rt)"

definition expectedSkillFiles :: "string \<Rightarrow> string list" where
  "expectedSkillFiles root = map (\<lambda>entry. path_join [root, destinationPath entry]) SKILL_FILE_MAP"

definition hasBrowserbaseSkills :: "filesystem \<Rightarrow> string \<Rightarrow> bool" where
  "hasBrowserbaseSkills fs root = list_all (\<lambda>filePath. existsSync fs filePath) (expectedSkillFiles root)"

definition normalizeRef :: "string option \<Rightarrow> string" where
  "normalizeRef r =
     (case r of
        Some s \<Rightarrow> if trim s = [] then DEFAULT_SKILLS_REF else trim s
      | None \<Rightarrow> DEFAULT_SKILLS_REF)"

text \<open>
  A response as the code reads it: \<^verbatim>\<open>ok\<close>, \<^verbatim>\<open>status\<close> and the text of the body. A fetch
  maps a URL to a response, or rejects with a message (\<open>Inl\<close>). The value given as
  \<^verbatim>\<open>fetchImpl\<close>, and the global \<^verbatim>\<open>fetch\<close>, may be something that is not a function.
\<close>

record response =
  ok :: bool
  status :: nat
  body :: string

type_synonym 'r fetch = "string \<Rightarrow> string + 'r"

datatype 'r fetch_value = NotAFunction | Function "'r fetch"

text \<open>
  The errors the module throws itself, with the message it gives to \<^verbatim>\<open>new Error\<close>, and
  the rejection of a fetch, with its message. A run ends with one of these (\<open>Thrown\<close>) or
  with the error of a call on the file system (\<open>FileSystem\<close>).
\<close>

datatype sync_error =
    FetchUnavailable
  | HttpError nat string
  | EmptyContent string
  | EmptyBody string
  | Rejected string


datatype failure = Thrown sync_error | FileSystem fs_error

definition downloadText :: "response fetch \<Rightarrow> string \<Rightarrow> sync_error + string" where
  "downloadText fetchImpl url =
     (case fetchImpl url of
        Inl m \<Rightarrow> Inl (Rejected m)
      | Inr resp \<Rightarrow> if \<not> ok resp then Inl (HttpError (status resp) url) else Inr (body resp))"

text \<open>
  \<^verbatim>\<open>writeFileAtomic\<close>: make the directory of the destination, write the content to a
  temporary path beside the destination, rename the temporary file onto the destination.
  The first of the three calls that rejects ends it, and the file system stays as the calls
  before it left it.
\<close>

definition tempPath :: "runtime \<Rightarrow> string \<Rightarrow> string" where
  "tempPath rt filePath = filePath @ ''.tmp-'' @ show_nat (pid rt) @ ''-'' @ show_nat (now rt filePath)"

definition writeFileAtomic ::
  "runtime \<Rightarrow> filesystem \<Rightarrow> string \<Rightarrow> string \<Rightarrow> fs_error option \<times> filesystem" where
  "writeFileAtomic rt fs filePath content =
     (case mkdir_recursive fs (dirname filePath) of
        Inl e \<Rightarrow> (Some e, fs)
      | Inr fs1 \<Rightarrow>
          (case writeFile fs1 (tempPath rt filePath) content of
             Inl e \<Rightarrow> (Some e, fs1)
           | Inr fs2 \<Rightarrow>
               (case rename fs2 (tempPath rt filePath) filePath of
                  Inl e \<Rightarrow> (Some e, fs2)
                | Inr fs3 \<Rightarrow> (None, fs3))))"

definition sourceUrl :: "string \<Rightarrow> skill_file \<Rightarrow> string" where
  "sourceUrl r entry = SKILLS_REPO_RAW_BASE @ ''/'' @ r @ ''/'' @ sourcePath entry"

text \<open>
  The \<^verbatim>\<open>for\<close> loop of \<^verbatim>\<open>syncBrowserbaseSkills\<close>: the entries are fetched and written one
  after the other; a throw leaves the file system as the iterations before it, and the calls
  of the failing write before the one that rejected, made it.
\<close>

fun sync_loop ::
  "runtime \<Rightarrow> response fetch \<Rightarrow> string \<Rightarrow> string \<Rightarrow> skill_file list \<Rightarrow> filesystem \<Rightarrow> string list
     \<Rightarrow> (failure + string list) \<times> filesystem" where
  "sync_loop rt fetchImpl r root [] fs written = (Inr written, fs)"
| "sync_loop rt fetchImpl r root (entry # rest) fs written =
     (case downloadText fetchImpl (sourceUrl r entry) of
        Inl e \<Rightarrow> (Inl (Thrown e), fs)
      | Inr content \<Rightarrow>
          if trim content = [] then (Inl (Thrown (EmptyContent (sourceUrl r entry))), fs)
          else
            (let destination = path_join [root, destinationPath entry]
             in case writeFileAtomic rt fs destination content of
                  (Some e, fs') \<Rightarrow> (Inl (FileSystem e), fs')
                | (None, fs') \<Rightarrow>
                    sync_loop rt fetchImpl r root rest fs' (written @ [destination])))"

record 'r sync_options =
  opt_targetRoot :: "string option"
  opt_ref :: "string option"
  opt_fetchImpl :: "'r fetch_value option"

definition syncBrowserbaseSkills ::
  "runtime \<Rightarrow> response fetch_value \<Rightarrow> response sync_options \<Rightarrow> filesystem
     \<Rightarrow> (failure + SkillSyncResult) \<times> filesystem" where
  "syncBrowserbaseSkills rt global_fetch options fs =
     (let root = resolveSkillsRoot rt (opt_targetRoot options);
          r = normalizeRef (opt_ref options)
      in case nullish (opt_fetchImpl options) global_fetch of
           NotAFunction \<Rightarrow> (Inl (Thrown FetchUnavailable), fs)
         | Function fetchImpl \<Rightarrow>
             (case sync_loop rt fetchImpl r root SKILL_FILE_MAP fs [] of
                (Inl e, fs') \<Rightarrow> (Inl e, fs')
              | (Inr written, fs') \<Rightarrow>
                  (Inr \<lparr> targetRoot = root, ref = r, filesWritten = written \<rparr>, fs')))"

subsection \<open>The archive revision (fetches one tarball)\<close>

definition REQUIRED_SKILL_DIRS :: "string list" where
  "REQUIRED_SKILL_DIRS = [''browser'', ''functions'']"

definition hasBrowserbaseSkills_archive :: "filesystem \<Rightarrow> string \<Rightarrow> bool" where
  "hasBrowserbaseSkills_archive fs root =
     list_all (\<lambda>dir. existsSync fs (path_join [root, dir, ''SKILL.md''])) REQUIRED_SKILL_DIRS"




text \<open>
  For stating what a failed run leaves behind. \<open>writable rt fs p\<close>: nothing in the file
  system \<open>fs\<close> makes \<^verbatim>\<open>writeFileAtomic\<close> of the path \<open>p\<close> reject: no regular file stands
  at the directory of \<open>p\<close> or above it, and no directory stands at \<open>p\<close> or at its temporary
  path. \<open>after_write rt fs p c\<close> is the file system after such a write of the content \<open>c\<close>;
  \<open>fetched_body\<close> is the body a fetch returns for a URL; \<open>installed\<close> is the file
  system after the entries \<open>es\<close> have been written in order.
\<close>

definition writable :: "runtime \<Rightarrow> filesystem \<Rightarrow> string \<Rightarrow> bool" where
  "writable rt fs p =
     (list_all (\<lambda>a. case fs a of Some (File c) \<Rightarrow> False | _ \<Rightarrow> True) (ancestors (dirname p)) \<and>
      fs (tempPath rt p) \<noteq> Some Directory \<and> fs p \<noteq> Some Directory)"




text \<open>
  For stating where the files go. A segment name is a non-empty string without separator
  other than \<^verbatim>\<open>.\<close> and \<^verbatim>\<open>..\<close>. \<open>root_prefix root\<close> is what \<^verbatim>\<open>path.join\<close> puts
  before segment names joined to \<open>root\<close>: the normal form of \<open>root\<close> with a separator
  after it, and nothing for the empty string and for a root that normalises to the current
  directory.
\<close>

definition segment_name :: "string \<Rightarrow> bool" where
  "segment_name s = (s \<noteq> [] \<and> CHR ''/'' \<notin> set s \<and> s \<noteq> ''.'' \<and> s \<noteq> ''..'')"

definition root_prefix :: "string \<Rightarrow> string" where
  "root_prefix root =
     (if root = [] then []
      else (let segs = foldl (normalize_segment (hd root \<noteq> CHR ''/'')) [] (split_slash root)
            in (if hd root = CHR ''/'' then ''/'' else []) @
               (if segs = [] then [] else join ''/'' segs @ ''/'')))"

section \<open>Properties of config.ts\<close>

subsection \<open>Placeholders and resolution\<close>

lemma process_env_get_credentials:
  "process_env_get env ''BROWSERBASE_API_KEY'' =
     (case env ''BROWSERBASE_API_KEY'' of None \<Rightarrow> EUndefined | Some v \<Rightarrow> EString v)"
  "process_env_get env ''BROWSERBASE_PROJECT_ID'' =
     (case env ''BROWSERBASE_PROJECT_ID'' of None \<Rightarrow> EUndefined | Some v \<Rightarrow> EString v)"
  by (simp_all add: process_env_get_def OBJECT_PROTOTYPE_def split: option.splits)


lemma resolveEnvVars_fails_iff:
  "(\<exists>e. resolveEnvVars env s = Inl e) \<longleftrightarrow> (\<exists>n \<in> set (placeholders s). \<not> env_set env n)"
proof (induction env s rule: resolveEnvVars.induct)
  case (1 env)
  then show ?case by simp
next
  case (2 env c cs)
  show ?case
  proof (cases "match_placeholder (c # cs)")
    case None
    with 2 show ?thesis by (auto split: sum.splits)
  next
    case (Some a)
    obtain n r where a: "a = (n, r)" by (cases a)
    show ?thesis
    proof (cases "env_set env n")
      case False
      with Some a show ?thesis by (simp add: env_set_def)
    next
      case True
      with Some a 2 show ?thesis
        by (auto simp: env_set_def split: sum.splits)
    qed
  qed
qed

lemma split_brace_no_brace: "\<forall>x\<in>set w. x \<noteq> CHR ''}'' \<Longrightarrow> split_brace w = None"
  by (induction w) auto

lemma split_brace_append:
  "\<forall>x\<in>set w. x \<noteq> CHR ''}'' \<Longrightarrow>
   split_brace (s @ w) = (case split_brace s of None \<Rightarrow> None | Some (n, r) \<Rightarrow> Some (n, r @ w))"
  by (induction s) (auto simp: split_brace_no_brace split: option.splits)

lemma is_js_space_not_syntax:
  "is_js_space x \<Longrightarrow> x \<noteq> CHR ''}'' \<and> x \<noteq> CHR ''{'' \<and> x \<noteq> CHR ''$''"
  by (auto simp: is_js_space_def)

lemma match_placeholder_append:
  assumes "\<forall>x\<in>set w. is_js_space x"
  shows "match_placeholder (s @ w) =
     (case match_placeholder s of None \<Rightarrow> None | Some (n, r) \<Rightarrow> Some (n, r @ w))"
proof -
  have nb: "\<forall>x\<in>set w. x \<noteq> CHR ''}''"
    using assms is_js_space_not_syntax by blast
  have w: "match_placeholder w = None"
    using assms by (cases w rule: match_placeholder.cases) (auto dest: is_js_space_not_syntax)
  show ?thesis
  proof (cases s)
    case Nil
    with w show ?thesis by simp
  next
    case (Cons a t)
    note s = Cons
    show ?thesis
    proof (cases t)
      case Nil
      with s assms show ?thesis
        by (cases w) (auto dest: is_js_space_not_syntax)
    next
      case (Cons b cs)
      with s show ?thesis
        by (auto simp: split_brace_append [OF nb] split: option.splits)
    qed
  qed
qed

lemma placeholders_spaces: "\<forall>x\<in>set w. is_js_space x \<Longrightarrow> placeholders w = []"
proof (induction w)
  case Nil
  then show ?case by simp
next
  case (Cons a w)
  then have "match_placeholder (a # w) = None"
    by (cases w) (auto dest: is_js_space_not_syntax)
  with Cons show ?case by simp
qed

lemma placeholders_append_spaces:
  "\<forall>x\<in>set w. is_js_space x \<Longrightarrow> placeholders (s @ w) = placeholders s"
proof (induction s rule: placeholders.induct)
  case 1
  then show ?case by (simp add: placeholders_spaces)
next
  case (2 c cs)
  show ?case
  proof (cases "match_placeholder (c # cs)")
    case None
    then have "match_placeholder ((c # cs) @ w) = None"
      using match_placeholder_append [OF 2(3), of "c # cs"] by simp
    with None 2 show ?thesis by simp
  next
    case (Some a)
    obtain n r where a: "a = (n, r)" by (cases a)
    with Some have "match_placeholder ((c # cs) @ w) = Some (n, r @ w)"
      using match_placeholder_append [OF 2(3), of "c # cs"] by simp
    with Some a 2 show ?thesis by simp
  qed
qed

lemma placeholders_dropWhile: "placeholders (dropWhile is_js_space s) = placeholders s"
proof (induction s)
  case Nil
  then show ?case by simp
next
  case (Cons a s)
  show ?case
  proof (cases "is_js_space a")
    case True
    then have "match_placeholder (a # s) = None"
      by (cases s) (auto dest: is_js_space_not_syntax)
    with True Cons show ?thesis by simp
  next
    case False
    then show ?thesis by simp
  qed
qed

lemma placeholders_trim: "placeholders (trim s) = placeholders s"
proof -
  define t where "t = dropWhile is_js_space s"
  have "rev t = takeWhile is_js_space (rev t) @ dropWhile is_js_space (rev t)"
    by simp
  then have "t = rev (dropWhile is_js_space (rev t)) @ rev (takeWhile is_js_space (rev t))"
    by (metis rev_append rev_rev_ident)
  moreover have "\<forall>x\<in>set (rev (takeWhile is_js_space (rev t))). is_js_space x"
    by (auto dest: set_takeWhileD)
  ultimately have "placeholders t = placeholders (rev (dropWhile is_js_space (rev t)))"
    using placeholders_append_spaces by metis
  then show ?thesis
    by (simp add: trim_def t_def placeholders_dropWhile)
qed

lemma resolveEnvVars_Inl:
  "resolveEnvVars env s = Inl e \<Longrightarrow> \<exists>n \<in> set (placeholders s). \<not> env_set env n \<and> e = EnvNotSet n"
proof (induction env s arbitrary: e rule: resolveEnvVars.induct)
  case (1 env)
  then show ?case by simp
next
  case (2 env c cs)
  show ?case
  proof (cases "match_placeholder (c # cs)")
    case None
    with 2 show ?thesis by (auto split: sum.splits)
  next
    case (Some a)
    obtain n r where a: "a = (n, r)" by (cases a)
    show ?thesis
    proof (cases "env_set env n")
      case False
      with Some a 2(3) show ?thesis
        by (auto simp: env_set_def)
    next
      case True
      with Some a 2(3) have "resolveEnvVars env r = Inl e"
        by (auto simp: env_set_def split: sum.splits)
      with 2(2) Some a True have "\<exists>n \<in> set (placeholders r). \<not> env_set env n \<and> e = EnvNotSet n"
        by (simp add: env_set_def)
      with Some a show ?thesis by auto
    qed
  qed
qed

lemma set_unknownKeys: "set (unknownKeys kvs) = {k \<in> set (keys kvs). k \<notin> set ALLOWED_KEYS}"
  by (auto simp: unknownKeys_def)

lemma sublist_join: "k \<in> set ks \<Longrightarrow> sublist k (join sep ks)"
proof (induction sep ks rule: join.induct)
  case (1 sep)
  then show ?case by simp
next
  case (2 sep x)
  then show ?case by simp
next
  case (3 sep x y ys)
  show ?case
  proof (cases "k = x")
    case True
    then show ?thesis by simp
  next
    case False
    with 3 have "sublist k (join sep (y # ys))" by simp
    then obtain ps ss where "join sep (y # ys) = ps @ k @ ss"
      by (auto simp: sublist_def)
    then have "x @ sep @ join sep (y # ys) = (x @ sep @ ps) @ k @ ss" by simp
    then have "sublist k (x @ sep @ join sep (y # ys))"
      unfolding sublist_def by blast
    then show ?thesis by simp
  qed
qed

lemma js_get_Nil: "js_get [] k = JUndefined"
  by (simp add: js_get_def)

lemma parseConfig_record:
  "parseConfig env (JObj kvs) =
     (if unknownKeys kvs \<noteq> [] then Inl (UnknownKeys ''browserbase config'' (unknownKeys kvs))
      else (case parseBaseUrl env (js_get kvs ''baseUrl'') of
              Inl e \<Rightarrow> Inl e
            | Inr url \<Rightarrow>
                Inr \<lparr> apiKey = credential env (js_get kvs ''apiKey'') ''BROWSERBASE_API_KEY'',
                      projectId = credential env (js_get kvs ''projectId'') ''BROWSERBASE_PROJECT_ID'',
                      baseUrl = url,
                      promptOnStart = boolean_or_undefined (js_get kvs ''promptOnStart''),
                      autoSyncSkills = boolean_or_undefined (js_get kvs ''autoSyncSkills'') \<rparr>))"
proof (cases "kvs = []")
  case True
  show ?thesis unfolding True
    by (simp add: parseConfig_def isRecord_def keys_def unknownKeys_def)
next
  case False
  then show ?thesis
    by (simp add: parseConfig_def isRecord_def keys_def assertAllowedKeys_def Let_def)
qed

lemma parseBaseUrl_Inl:
  "parseBaseUrl env v = Inl e \<Longrightarrow>
     \<exists>s. v = JStr s \<and> (\<exists>n \<in> set (placeholders s). \<not> env_set env n \<and> e = EnvNotSet n)"
  by (cases v)
    (auto simp: parseBaseUrl_def Let_def placeholders_trim split: if_splits
          dest!: resolveEnvVars_Inl)


lemma parseBaseUrl_ok:
  "(\<forall>t. v = JStr t \<longrightarrow> (\<forall>n \<in> set (placeholders t). env_set env n)) \<Longrightarrow>
     \<exists>url. parseBaseUrl env v = Inr url"
proof (cases "parseBaseUrl env v")
  case (Inl e)
  assume h: "\<forall>t. v = JStr t \<longrightarrow> (\<forall>n \<in> set (placeholders t). env_set env n)"
  from parseBaseUrl_Inl [OF Inl] h show ?thesis by blast
next
  case (Inr url)
  then show ?thesis by simp
qed

lemma parseOptionalString_fails:
  "\<exists>n \<in> set (placeholders s). \<not> env_set env n \<Longrightarrow> \<exists>e. parseOptionalString env (JStr s) = Inl e"
proof -
  assume a: "\<exists>n \<in> set (placeholders s). \<not> env_set env n"
  then have "\<exists>n \<in> set (placeholders (trim s)). \<not> env_set env n"
    by (simp add: placeholders_trim)
  then have f: "\<exists>e. resolveEnvVars env (trim s) = Inl e"
    by (simp add: resolveEnvVars_fails_iff)
  moreover from f have "trim s \<noteq> []" by auto
  ultimately show ?thesis by (auto simp: parseOptionalString_def Let_def)
qed

lemma credential_no_explicit_value:
  "no_explicit_value env v \<Longrightarrow> credential env v x = env x"
proof (cases v)
  case (JStr s)
  assume "no_explicit_value env v"
  with JStr consider "trim s = []" | "\<exists>n \<in> set (placeholders s). \<not> env_set env n"
    by (auto simp: no_explicit_value_def)
  then show ?thesis
  proof cases
    case 1
    with JStr show ?thesis by (simp add: credential_def parseOptionalString_def)
  next
    case 2
    from parseOptionalString_fails [OF 2] JStr show ?thesis
      by (auto simp: credential_def)
  qed
qed (simp_all add: credential_def parseOptionalString_def)

lemma credential_explicit:
  "parseOptionalString env v = Inr (Some r) \<Longrightarrow> credential env v x = Some r"
  by (simp add: credential_def)

lemma parseConfig_Inr_fields:
  assumes "parseConfig env (JObj kvs) = Inr P"
  shows "apiKey P = credential env (js_get kvs ''apiKey'') ''BROWSERBASE_API_KEY''"
    and "projectId P = credential env (js_get kvs ''projectId'') ''BROWSERBASE_PROJECT_ID''"
    and "parseBaseUrl env (js_get kvs ''baseUrl'') = Inr (baseUrl P)"
    and "promptOnStart P = boolean_or_undefined (js_get kvs ''promptOnStart'')"
    and "autoSyncSkills P = boolean_or_undefined (js_get kvs ''autoSyncSkills'')"
proof -
  from assms have u: "unknownKeys kvs = []"
    by (simp add: parseConfig_record split: if_splits)
  from assms u obtain url where url: "parseBaseUrl env (js_get kvs ''baseUrl'') = Inr url"
    by (cases "parseBaseUrl env (js_get kvs ''baseUrl'')") (simp_all add: parseConfig_record)
  from assms u url have P: "P =
      \<lparr> apiKey = credential env (js_get kvs ''apiKey'') ''BROWSERBASE_API_KEY'',
        projectId = credential env (js_get kvs ''projectId'') ''BROWSERBASE_PROJECT_ID'',
        baseUrl = url,
        promptOnStart = boolean_or_undefined (js_get kvs ''promptOnStart''),
        autoSyncSkills = boolean_or_undefined (js_get kvs ''autoSyncSkills'') \<rparr>"
    by (simp add: parseConfig_record)
  show "apiKey P = credential env (js_get kvs ''apiKey'') ''BROWSERBASE_API_KEY''"
    by (simp add: P)
  show "projectId P = credential env (js_get kvs ''projectId'') ''BROWSERBASE_PROJECT_ID''"
    by (simp add: P)
  show "parseBaseUrl env (js_get kvs ''baseUrl'') = Inr (baseUrl P)"
    by (simp add: P url)
  show "promptOnStart P = boolean_or_undefined (js_get kvs ''promptOnStart'')"
    by (simp add: P)
  show "autoSyncSkills P = boolean_or_undefined (js_get kvs ''autoSyncSkills'')"
    by (simp add: P)
qed

lemma unknownKeys_Nil_iff: "unknownKeys kvs = [] \<longleftrightarrow> set (keys kvs) \<subseteq> set ALLOWED_KEYS"
  by (auto simp: unknownKeys_def filter_empty_conv)

subsection \<open>Unknown keys\<close>

text \<open>
  C1. A record with at least one key outside the allow-list makes \<open>parseConfig\<close> throw
  the unknown-keys error, and the message of that error contains every offending key.
  Conversely, for a record whose string fields contain only placeholders that the callback
  of \<^verbatim>\<open>resolveEnvVars\<close> accepts (their names are variables which are set and not empty, or
  names \<^verbatim>\<open>process.env\<close> inherits), every failure of \<open>parseConfig\<close> is that unknown-keys
  error (and the record has an offending key).
\<close>

theorem parseConfig_unknown_keys:
  "((\<exists>k \<in> set (keys kvs). k \<notin> set ALLOWED_KEYS) \<longrightarrow>
      parseConfig env (JObj kvs) = Inl (UnknownKeys ''browserbase config'' (unknownKeys kvs)) \<and>
      (\<forall>k \<in> set (keys kvs). k \<notin> set ALLOWED_KEYS \<longrightarrow>
         sublist k (message (UnknownKeys ''browserbase config'' (unknownKeys kvs)))))
   \<and> ((\<forall>k s. (k, JStr s) \<in> set kvs \<longrightarrow> (\<forall>n \<in> set (placeholders s). env_set env n)) \<longrightarrow>
        parseConfig env (JObj kvs) = Inl e \<longrightarrow>
        (\<exists>k \<in> set (keys kvs). k \<notin> set ALLOWED_KEYS) \<and>
        e = UnknownKeys ''browserbase config'' (unknownKeys kvs))"
proof (intro conjI impI)
  assume bad: "\<exists>k \<in> set (keys kvs). k \<notin> set ALLOWED_KEYS"
  then have ne: "unknownKeys kvs \<noteq> []"
    by (auto simp: unknownKeys_Nil_iff)
  then show "parseConfig env (JObj kvs) = Inl (UnknownKeys ''browserbase config'' (unknownKeys kvs))"
    by (simp add: parseConfig_record)
  show "\<forall>k \<in> set (keys kvs). k \<notin> set ALLOWED_KEYS \<longrightarrow>
         sublist k (message (UnknownKeys ''browserbase config'' (unknownKeys kvs)))"
  proof (intro ballI impI)
    fix k assume "k \<in> set (keys kvs)" "k \<notin> set ALLOWED_KEYS"
    then have "k \<in> set (unknownKeys kvs)" by (simp add: set_unknownKeys)
    then have "sublist k (join '', '' (unknownKeys kvs))" by (rule sublist_join)
    then obtain ps ss where "join '', '' (unknownKeys kvs) = ps @ k @ ss"
      by (auto simp: sublist_def)
    then have "message (UnknownKeys ''browserbase config'' (unknownKeys kvs)) =
        (''browserbase config has unknown keys: '' @ ps) @ k @ ss"
      by simp
    then show "sublist k (message (UnknownKeys ''browserbase config'' (unknownKeys kvs)))"
      unfolding sublist_def by blast
  qed
next
  assume ok: "\<forall>k s. (k, JStr s) \<in> set kvs \<longrightarrow> (\<forall>n \<in> set (placeholders s). env_set env n)"
    and fail: "parseConfig env (JObj kvs) = Inl e"
  have url: "\<exists>url. parseBaseUrl env (js_get kvs ''baseUrl'') = Inr url"
  proof (rule parseBaseUrl_ok, intro allI impI)
    fix t assume t: "js_get kvs ''baseUrl'' = JStr t"
    then have "map_of kvs ''baseUrl'' = Some (JStr t)"
      by (auto simp: js_get_def split: option.splits)
    then have "(''baseUrl'', JStr t) \<in> set kvs" by (rule map_of_SomeD)
    with ok show "\<forall>n \<in> set (placeholders t). env_set env n" by blast
  qed
  with fail have ne: "unknownKeys kvs \<noteq> []"
    by (auto simp: parseConfig_record split: if_splits)
  then show "\<exists>k \<in> set (keys kvs). k \<notin> set ALLOWED_KEYS"
    by (auto simp: unknownKeys_Nil_iff)
  from fail ne show "e = UnknownKeys ''browserbase config'' (unknownKeys kvs)"
    by (simp add: parseConfig_record)
qed

text \<open>
  The theorem at \<^verbatim>\<open>{ apiKey: "k", nope: true, typo: 1 }\<close> in an empty environment.
\<close>

theorem parseConfig_unknown_keys_witness:
  "''nope'' \<in> set (keys [(''apiKey'', JStr ''k''), (''nope'', JBool True), (''typo'', JNum 1)]) \<and>
   ''nope'' \<notin> set ALLOWED_KEYS \<and>
   placeholders ''k'' = [] \<and>
   parseConfig Map.empty (JObj [(''apiKey'', JStr ''k''), (''nope'', JBool True), (''typo'', JNum 1)])
     = Inl (UnknownKeys ''browserbase config'' [''nope'', ''typo'']) \<and>
   message (UnknownKeys ''browserbase config'' [''nope'', ''typo''])
     = ''browserbase config has unknown keys: nope, typo'' \<and>
   sublist ''nope'' (message (UnknownKeys ''browserbase config'' [''nope'', ''typo''])) \<and>
   sublist ''typo'' (message (UnknownKeys ''browserbase config'' [''nope'', ''typo'']))"
proof -
  let ?kvs = "[(''apiKey'', JStr ''k''), (''nope'', JBool True), (''typo'', JNum 1)]"
  have k: "''nope'' \<in> set (keys ?kvs)" "''typo'' \<in> set (keys ?kvs)"
    by (simp_all add: keys_def)
  have n: "''nope'' \<notin> set ALLOWED_KEYS" "''typo'' \<notin> set ALLOWED_KEYS"
    by (simp_all add: ALLOWED_KEYS_def)
  have u: "unknownKeys ?kvs = [''nope'', ''typo'']"
    by (simp add: unknownKeys_def keys_def ALLOWED_KEYS_def)
  have p: "placeholders ''k'' = []" by simp
  from k n have bad: "\<exists>k \<in> set (keys ?kvs). k \<notin> set ALLOWED_KEYS" by blast
  note t = parseConfig_unknown_keys [of ?kvs Map.empty]
  from t bad have 1: "parseConfig Map.empty (JObj ?kvs)
      = Inl (UnknownKeys ''browserbase config'' (unknownKeys ?kvs))"
    by blast
  from t bad k n have 2: "sublist ''nope'' (message (UnknownKeys ''browserbase config'' (unknownKeys ?kvs)))"
    and 3: "sublist ''typo'' (message (UnknownKeys ''browserbase config'' (unknownKeys ?kvs)))"
    by blast+
  have ok: "\<forall>k s. (k, JStr s) \<in> set ?kvs \<longrightarrow> (\<forall>n \<in> set (placeholders s). env_set Map.empty n)"
    by simp
  from parseConfig_unknown_keys [of ?kvs Map.empty "UnknownKeys ''browserbase config'' (unknownKeys ?kvs)"]
    ok 1
  have 4: "\<exists>k \<in> set (keys ?kvs). k \<notin> set ALLOWED_KEYS" by blast
  from k n p 1 2 3 4 show ?thesis unfolding u by simp
qed

subsection \<open>Auxiliary facts about parsing\<close>

lemma isRecord_iff: "isRecord v \<longleftrightarrow> (\<exists>kvs. v = JObj kvs)"
  by (cases v) (simp_all add: isRecord_def)

lemma credential_undefined: "credential env JUndefined x = env x"
  by (simp add: credential_def parseOptionalString_def)

lemma parseConfig_not_record:
  "\<not> isRecord raw \<Longrightarrow> parseConfig env raw =
     Inr \<lparr> apiKey = env ''BROWSERBASE_API_KEY'', projectId = env ''BROWSERBASE_PROJECT_ID'',
           baseUrl = DEFAULT_BASE_URL, promptOnStart = None, autoSyncSkills = None \<rparr>"
  by (simp add: parseConfig_def keys_def js_get_Nil credential_undefined parseBaseUrl_def)

lemma parseConfig_succeeds:
  assumes k: "set (keys kvs) \<subseteq> set ALLOWED_KEYS"
    and u: "\<forall>t. js_get kvs ''baseUrl'' = JStr t \<longrightarrow> (\<forall>n \<in> set (placeholders t). env_set env n)"
  shows "\<exists>P. parseConfig env (JObj kvs) = Inr P"
proof -
  from k have "unknownKeys kvs = []" by (simp add: unknownKeys_Nil_iff)
  moreover from parseBaseUrl_ok [OF u] obtain url
    where "parseBaseUrl env (js_get kvs ''baseUrl'') = Inr url" by blast
  ultimately show ?thesis by (simp add: parseConfig_record)
qed

lemma boolean_or_undefined_None: "typeof v \<noteq> TBoolean \<Longrightarrow> boolean_or_undefined v = None"
  by (cases v) simp_all

lemma parseBaseUrl_default:
  "\<forall>s. v = JStr s \<longrightarrow> trim s = [] \<Longrightarrow> parseBaseUrl env v = Inr DEFAULT_BASE_URL"
  by (cases v) (simp_all add: parseBaseUrl_def)

subsection \<open>Inputs that are not records\<close>

text \<open>
  C9. For an input that is not a plain record (\<^verbatim>\<open>null\<close>, \<^verbatim>\<open>undefined\<close>, a boolean,
  a number, a string, an array) \<open>parseConfig\<close> does not throw: it returns the
  configuration whose \<open>baseUrl\<close> is the fixed default, whose two booleans are unset and
  whose credentials are exactly what the two environment variables hold.
\<close>

theorem parseConfig_non_record_default:
  "raw = JNull \<or> raw = JUndefined \<or> raw = JBool b \<or> raw = JNum n \<or> raw = JStr s \<or> raw = JArr xs \<Longrightarrow>
     \<not> isRecord raw \<and>
     parseConfig env raw =
       Inr \<lparr> apiKey = env ''BROWSERBASE_API_KEY'', projectId = env ''BROWSERBASE_PROJECT_ID'',
             baseUrl = ''https://api.browserbase.com'', promptOnStart = None,
             autoSyncSkills = None \<rparr>"
proof -
  assume a: "raw = JNull \<or> raw = JUndefined \<or> raw = JBool b \<or> raw = JNum n \<or> raw = JStr s \<or> raw = JArr xs"
  then have n: "\<not> isRecord raw" by (auto simp: isRecord_def)
  from parseConfig_not_record [OF n, of env] n show ?thesis
    by (simp add: DEFAULT_BASE_URL_def)
qed

text \<open>The theorem at \<^verbatim>\<open>42\<close> with the API key variable set, and at \<^verbatim>\<open>"string"\<close>.\<close>

theorem parseConfig_non_record_default_witness:
  "parseConfig [''BROWSERBASE_API_KEY'' \<mapsto> ''bb_env_key''] (JNum 42) =
     Inr \<lparr> apiKey = Some ''bb_env_key'', projectId = None,
           baseUrl = ''https://api.browserbase.com'', promptOnStart = None,
           autoSyncSkills = None \<rparr>
   \<and> parseConfig Map.empty (JStr ''string'') =
     Inr \<lparr> apiKey = None, projectId = None,
           baseUrl = ''https://api.browserbase.com'', promptOnStart = None,
           autoSyncSkills = None \<rparr>"
proof -
  have 1: "JNum 42 = JNull \<or> JNum 42 = JUndefined \<or> JNum 42 = JBool False \<or> JNum 42 = JNum 42
      \<or> JNum 42 = JStr [] \<or> JNum 42 = JArr []" by simp
  have 2: "JStr ''string'' = JNull \<or> JStr ''string'' = JUndefined \<or> JStr ''string'' = JBool False
      \<or> JStr ''string'' = JNum 0 \<or> JStr ''string'' = JStr ''string'' \<or> JStr ''string'' = JArr []"
    by simp
  from parseConfig_non_record_default [OF 1, of "[''BROWSERBASE_API_KEY'' \<mapsto> ''bb_env_key'']"]
    parseConfig_non_record_default [OF 2, of Map.empty]
  show ?thesis by simp
qed

subsection \<open>Merging\<close>

text \<open>
  C4. \<open>mergeConfig primary fallback\<close> takes, field by field, the primary's value when it
  is defined and the fallback's otherwise. \<open>baseUrl\<close> is always defined, so it is always
  the primary's. For the two booleans an explicit \<open>false\<close> of the primary is defined and
  overrides a \<open>true\<close> of the fallback; only an unset primary falls through.
\<close>

theorem mergeConfig_primary_wins:
  "(apiKey p = Some a \<longrightarrow> apiKey (mergeConfig p f) = Some a) \<and>
   (apiKey p = None \<longrightarrow> apiKey (mergeConfig p f) = apiKey f) \<and>
   (projectId p = Some i \<longrightarrow> projectId (mergeConfig p f) = Some i) \<and>
   (projectId p = None \<longrightarrow> projectId (mergeConfig p f) = projectId f) \<and>
   baseUrl (mergeConfig p f) = baseUrl p \<and>
   (promptOnStart p = Some b \<longrightarrow> promptOnStart (mergeConfig p f) = Some b) \<and>
   (promptOnStart p = None \<longrightarrow> promptOnStart (mergeConfig p f) = promptOnStart f) \<and>
   (autoSyncSkills p = Some c \<longrightarrow> autoSyncSkills (mergeConfig p f) = Some c) \<and>
   (autoSyncSkills p = None \<longrightarrow> autoSyncSkills (mergeConfig p f) = autoSyncSkills f) \<and>
   (promptOnStart p = Some False \<and> promptOnStart f = Some True \<longrightarrow>
      promptOnStart (mergeConfig p f) = Some False) \<and>
   (autoSyncSkills p = Some False \<and> autoSyncSkills f = Some True \<longrightarrow>
      autoSyncSkills (mergeConfig p f) = Some False)"
  by (simp add: mergeConfig_def)

text \<open>
  The theorem at a primary with \<open>promptOnStart = false\<close>, no API key and no
  \<open>autoSyncSkills\<close>, over a fallback that sets every field.
\<close>

theorem mergeConfig_primary_wins_witness:
  "promptOnStart (mergeConfig
      \<lparr> apiKey = None, projectId = Some ''proj_primary'', baseUrl = ''https://primary.example.com'',
        promptOnStart = Some False, autoSyncSkills = None \<rparr>
      \<lparr> apiKey = Some ''bb_fallback'', projectId = Some ''proj_fallback'',
        baseUrl = ''https://fallback.example.com'',
        promptOnStart = Some True, autoSyncSkills = Some True \<rparr>) = Some False
   \<and> apiKey (mergeConfig
      \<lparr> apiKey = None, projectId = Some ''proj_primary'', baseUrl = ''https://primary.example.com'',
        promptOnStart = Some False, autoSyncSkills = None \<rparr>
      \<lparr> apiKey = Some ''bb_fallback'', projectId = Some ''proj_fallback'',
        baseUrl = ''https://fallback.example.com'',
        promptOnStart = Some True, autoSyncSkills = Some True \<rparr>) = Some ''bb_fallback''
   \<and> projectId (mergeConfig
      \<lparr> apiKey = None, projectId = Some ''proj_primary'', baseUrl = ''https://primary.example.com'',
        promptOnStart = Some False, autoSyncSkills = None \<rparr>
      \<lparr> apiKey = Some ''bb_fallback'', projectId = Some ''proj_fallback'',
        baseUrl = ''https://fallback.example.com'',
        promptOnStart = Some True, autoSyncSkills = Some True \<rparr>) = Some ''proj_primary''
   \<and> autoSyncSkills (mergeConfig
      \<lparr> apiKey = None, projectId = Some ''proj_primary'', baseUrl = ''https://primary.example.com'',
        promptOnStart = Some False, autoSyncSkills = None \<rparr>
      \<lparr> apiKey = Some ''bb_fallback'', projectId = Some ''proj_fallback'',
        baseUrl = ''https://fallback.example.com'',
        promptOnStart = Some True, autoSyncSkills = Some True \<rparr>) = Some True"
proof -
  let ?p = "\<lparr> apiKey = None, projectId = Some ''proj_primary'', baseUrl = ''https://primary.example.com'',
        promptOnStart = Some False, autoSyncSkills = None \<rparr>"
  let ?f = "\<lparr> apiKey = Some ''bb_fallback'', projectId = Some ''proj_fallback'',
        baseUrl = ''https://fallback.example.com'',
        promptOnStart = Some True, autoSyncSkills = Some True \<rparr>"
  have h: "apiKey ?p = None" "projectId ?p = Some ''proj_primary''"
    "promptOnStart ?p = Some False \<and> promptOnStart ?f = Some True" "autoSyncSkills ?p = None"
    "autoSyncSkills ?f = Some True" "apiKey ?f = Some ''bb_fallback''"
    by simp_all
  note t = mergeConfig_primary_wins [of ?p "''x''" ?f "''proj_primary''" False True]
  from t h(3) have 1: "promptOnStart (mergeConfig ?p ?f) = Some False" by blast
  from t h(1) have 2: "apiKey (mergeConfig ?p ?f) = apiKey ?f" by blast
  from t h(2) have 3: "projectId (mergeConfig ?p ?f) = Some ''proj_primary''" by blast
  from t h(4) have 4: "autoSyncSkills (mergeConfig ?p ?f) = autoSyncSkills ?f" by blast
  from 1 2 3 4 h(5,6) show ?thesis by simp
qed

text \<open>
  C2, as stated, fails for \<open>baseUrl\<close>: a primary parsed from the empty record carries the
  default URL, and in the merge that default wins over the URL the fallback configured. It
  also fails for a credential when the direct environment variable is set: a primary parsed
  from the empty record carries the variable's value, and in the merge that value wins over
  the credential the fallback configured.
\<close>

theorem mergeConfig_unconfigured_primary_masks_fallback:
  "parseConfig Map.empty (JObj []) =
     Inr \<lparr> apiKey = None, projectId = None, baseUrl = ''https://api.browserbase.com'',
           promptOnStart = None, autoSyncSkills = None \<rparr> \<and>
   parseConfig Map.empty (JObj [(''baseUrl'', JStr ''https://fallback.example.com'')]) =
     Inr \<lparr> apiKey = None, projectId = None, baseUrl = ''https://fallback.example.com'',
           promptOnStart = None, autoSyncSkills = None \<rparr> \<and>
   baseUrl (mergeConfig
     \<lparr> apiKey = None, projectId = None, baseUrl = ''https://api.browserbase.com'',
       promptOnStart = None, autoSyncSkills = None \<rparr>
     \<lparr> apiKey = None, projectId = None, baseUrl = ''https://fallback.example.com'',
       promptOnStart = None, autoSyncSkills = None \<rparr>) = ''https://api.browserbase.com'' \<and>
   baseUrl (mergeConfig
     \<lparr> apiKey = None, projectId = None, baseUrl = ''https://api.browserbase.com'',
       promptOnStart = None, autoSyncSkills = None \<rparr>
     \<lparr> apiKey = None, projectId = None, baseUrl = ''https://fallback.example.com'',
       promptOnStart = None, autoSyncSkills = None \<rparr>) \<noteq> ''https://fallback.example.com'' \<and>
   parseConfig [''BROWSERBASE_API_KEY'' \<mapsto> ''bb_env''] (JObj []) =
     Inr \<lparr> apiKey = Some ''bb_env'', projectId = None, baseUrl = ''https://api.browserbase.com'',
           promptOnStart = None, autoSyncSkills = None \<rparr> \<and>
   parseConfig [''BROWSERBASE_API_KEY'' \<mapsto> ''bb_env''] (JObj [(''apiKey'', JStr ''bb_file'')]) =
     Inr \<lparr> apiKey = Some ''bb_file'', projectId = None, baseUrl = ''https://api.browserbase.com'',
           promptOnStart = None, autoSyncSkills = None \<rparr> \<and>
   apiKey (mergeConfig
     \<lparr> apiKey = Some ''bb_env'', projectId = None, baseUrl = ''https://api.browserbase.com'',
       promptOnStart = None, autoSyncSkills = None \<rparr>
     \<lparr> apiKey = Some ''bb_file'', projectId = None, baseUrl = ''https://api.browserbase.com'',
       promptOnStart = None, autoSyncSkills = None \<rparr>) = Some ''bb_env''"
proof -
  let ?env = "[''BROWSERBASE_API_KEY'' \<mapsto> ''bb_env'']"
  have t: "trim ''https://fallback.example.com'' = ''https://fallback.example.com''"
    "trim ''bb_file'' = ''bb_file''"
    by (simp_all add: trim_def is_js_space_def)
  have r: "resolveEnvVars Map.empty ''https://fallback.example.com'' = Inr ''https://fallback.example.com''"
    "resolveEnvVars ?env ''bb_file'' = Inr ''bb_file''"
    by simp_all
  have 1: "parseConfig env (JObj []) =
     Inr \<lparr> apiKey = env ''BROWSERBASE_API_KEY'', projectId = env ''BROWSERBASE_PROJECT_ID'',
           baseUrl = ''https://api.browserbase.com'',
           promptOnStart = None, autoSyncSkills = None \<rparr>" for env
    by (simp add: parseConfig_record unknownKeys_def keys_def js_get_def credential_def
        parseOptionalString_def parseBaseUrl_def DEFAULT_BASE_URL_def)
  have 2: "parseConfig Map.empty (JObj [(''baseUrl'', JStr ''https://fallback.example.com'')]) =
     Inr \<lparr> apiKey = None, projectId = None, baseUrl = ''https://fallback.example.com'',
           promptOnStart = None, autoSyncSkills = None \<rparr>"
    by (simp add: parseConfig_record unknownKeys_def keys_def js_get_def credential_def
        parseOptionalString_def parseBaseUrl_def ALLOWED_KEYS_def t r)
  have 3: "parseConfig ?env (JObj [(''apiKey'', JStr ''bb_file'')]) =
     Inr \<lparr> apiKey = Some ''bb_file'', projectId = None, baseUrl = ''https://api.browserbase.com'',
           promptOnStart = None, autoSyncSkills = None \<rparr>"
    by (simp add: parseConfig_record unknownKeys_def keys_def js_get_def credential_def
        parseOptionalString_def parseBaseUrl_def ALLOWED_KEYS_def DEFAULT_BASE_URL_def t r)
  from 1 [of Map.empty] 1 [of ?env] 2 3 show ?thesis by (simp add: mergeConfig_def)
qed

text \<open>
  C2, amended. Let \<open>P\<close> and \<open>F\<close> be parsed from the records \<open>p\<close> and \<open>f\<close> in one
  environment. A boolean field that \<open>p\<close> does not hold as a boolean is, in the merge, the
  field of \<open>F\<close>, so a boolean configured in \<open>f\<close> appears. A credential for which \<open>p\<close>
  yields no value is, in the merge, the credential of \<open>F\<close> when the direct environment
  variable is unset, so a credential configured in \<open>f\<close> appears; when the variable is set,
  its value is the primary's own and is the merged credential. The merged \<open>baseUrl\<close> is
  always the primary's, and it is the default when \<open>p\<close> holds no non-blank string there.
\<close>

theorem mergeConfig_unset_falls_through:
  assumes P: "parseConfig env (JObj p) = Inr P" and F: "parseConfig env (JObj f) = Inr F"
  shows
  "(typeof (js_get p ''promptOnStart'') \<noteq> TBoolean \<longrightarrow>
      promptOnStart (mergeConfig P F) = promptOnStart F \<and>
      (\<forall>b. js_get f ''promptOnStart'' = JBool b \<longrightarrow> promptOnStart (mergeConfig P F) = Some b)) \<and>
   (typeof (js_get p ''autoSyncSkills'') \<noteq> TBoolean \<longrightarrow>
      autoSyncSkills (mergeConfig P F) = autoSyncSkills F \<and>
      (\<forall>b. js_get f ''autoSyncSkills'' = JBool b \<longrightarrow> autoSyncSkills (mergeConfig P F) = Some b)) \<and>
   (no_explicit_value env (js_get p ''apiKey'') \<and> env ''BROWSERBASE_API_KEY'' = None \<longrightarrow>
      apiKey (mergeConfig P F) = apiKey F \<and>
      (\<forall>v. parseOptionalString env (js_get f ''apiKey'') = Inr (Some v) \<longrightarrow>
           apiKey (mergeConfig P F) = Some v)) \<and>
   (no_explicit_value env (js_get p ''projectId'') \<and> env ''BROWSERBASE_PROJECT_ID'' = None \<longrightarrow>
      projectId (mergeConfig P F) = projectId F \<and>
      (\<forall>v. parseOptionalString env (js_get f ''projectId'') = Inr (Some v) \<longrightarrow>
           projectId (mergeConfig P F) = Some v)) \<and>
   (no_explicit_value env (js_get p ''apiKey'') \<and> env ''BROWSERBASE_API_KEY'' = Some w \<longrightarrow>
      apiKey (mergeConfig P F) = Some w) \<and>
   (no_explicit_value env (js_get p ''projectId'') \<and> env ''BROWSERBASE_PROJECT_ID'' = Some w \<longrightarrow>
      projectId (mergeConfig P F) = Some w) \<and>
   baseUrl (mergeConfig P F) = baseUrl P \<and>
   ((\<forall>s. js_get p ''baseUrl'' = JStr s \<longrightarrow> trim s = []) \<longrightarrow>
      baseUrl (mergeConfig P F) = DEFAULT_BASE_URL)"
proof -
  note Pf = parseConfig_Inr_fields [OF P]
  note Ff = parseConfig_Inr_fields [OF F]
  have 1: "typeof (js_get p ''promptOnStart'') \<noteq> TBoolean \<longrightarrow>
      promptOnStart (mergeConfig P F) = promptOnStart F \<and>
      (\<forall>b. js_get f ''promptOnStart'' = JBool b \<longrightarrow> promptOnStart (mergeConfig P F) = Some b)"
    by (simp add: mergeConfig_def Pf(4) Ff(4) boolean_or_undefined_None)
  have 2: "typeof (js_get p ''autoSyncSkills'') \<noteq> TBoolean \<longrightarrow>
      autoSyncSkills (mergeConfig P F) = autoSyncSkills F \<and>
      (\<forall>b. js_get f ''autoSyncSkills'' = JBool b \<longrightarrow> autoSyncSkills (mergeConfig P F) = Some b)"
    by (simp add: mergeConfig_def Pf(5) Ff(5) boolean_or_undefined_None)
  have 3: "no_explicit_value env (js_get p ''apiKey'') \<and> env ''BROWSERBASE_API_KEY'' = None \<longrightarrow>
      apiKey (mergeConfig P F) = apiKey F \<and>
      (\<forall>v. parseOptionalString env (js_get f ''apiKey'') = Inr (Some v) \<longrightarrow>
           apiKey (mergeConfig P F) = Some v)"
    by (simp add: mergeConfig_def Pf(1) Ff(1) credential_no_explicit_value credential_explicit)
  have 4: "no_explicit_value env (js_get p ''projectId'') \<and> env ''BROWSERBASE_PROJECT_ID'' = None \<longrightarrow>
      projectId (mergeConfig P F) = projectId F \<and>
      (\<forall>v. parseOptionalString env (js_get f ''projectId'') = Inr (Some v) \<longrightarrow>
           projectId (mergeConfig P F) = Some v)"
    by (simp add: mergeConfig_def Pf(2) Ff(2) credential_no_explicit_value credential_explicit)
  have 5: "no_explicit_value env (js_get p ''apiKey'') \<and> env ''BROWSERBASE_API_KEY'' = Some w \<longrightarrow>
      apiKey (mergeConfig P F) = Some w"
    by (simp add: mergeConfig_def Pf(1) credential_no_explicit_value)
  have 6: "no_explicit_value env (js_get p ''projectId'') \<and> env ''BROWSERBASE_PROJECT_ID'' = Some w \<longrightarrow>
      projectId (mergeConfig P F) = Some w"
    by (simp add: mergeConfig_def Pf(2) credential_no_explicit_value)
  have 7: "baseUrl (mergeConfig P F) = baseUrl P"
    by (simp add: mergeConfig_def)
  have 8: "(\<forall>s. js_get p ''baseUrl'' = JStr s \<longrightarrow> trim s = []) \<longrightarrow>
      baseUrl (mergeConfig P F) = DEFAULT_BASE_URL"
  proof
    assume "\<forall>s. js_get p ''baseUrl'' = JStr s \<longrightarrow> trim s = []"
    from parseBaseUrl_default [OF this, of env] Pf(3) show "baseUrl (mergeConfig P F) = DEFAULT_BASE_URL"
      by (simp add: mergeConfig_def)
  qed
  from 1 2 3 4 5 6 7 8 show ?thesis by blast
qed

text \<open>
  The theorem at the empty primary record and a fallback record with an API key, an explicit
  \<open>promptOnStart = false\<close> and a base URL, in an empty environment.
\<close>

theorem mergeConfig_unset_falls_through_witness:
  "parseConfig Map.empty (JObj []) =
     Inr \<lparr> apiKey = None, projectId = None, baseUrl = ''https://api.browserbase.com'',
           promptOnStart = None, autoSyncSkills = None \<rparr> \<and>
   parseConfig Map.empty (JObj [(''apiKey'', JStr '' bb_fallback ''),
       (''promptOnStart'', JBool False), (''baseUrl'', JStr ''https://fallback.example.com'')]) =
     Inr \<lparr> apiKey = Some ''bb_fallback'', projectId = None,
           baseUrl = ''https://fallback.example.com'',
           promptOnStart = Some False, autoSyncSkills = None \<rparr> \<and>
   promptOnStart (mergeConfig
     \<lparr> apiKey = None, projectId = None, baseUrl = ''https://api.browserbase.com'',
       promptOnStart = None, autoSyncSkills = None \<rparr>
     \<lparr> apiKey = Some ''bb_fallback'', projectId = None,
       baseUrl = ''https://fallback.example.com'',
       promptOnStart = Some False, autoSyncSkills = None \<rparr>) = Some False \<and>
   apiKey (mergeConfig
     \<lparr> apiKey = None, projectId = None, baseUrl = ''https://api.browserbase.com'',
       promptOnStart = None, autoSyncSkills = None \<rparr>
     \<lparr> apiKey = Some ''bb_fallback'', projectId = None,
       baseUrl = ''https://fallback.example.com'',
       promptOnStart = Some False, autoSyncSkills = None \<rparr>) = Some ''bb_fallback'' \<and>
   baseUrl (mergeConfig
     \<lparr> apiKey = None, projectId = None, baseUrl = ''https://api.browserbase.com'',
       promptOnStart = None, autoSyncSkills = None \<rparr>
     \<lparr> apiKey = Some ''bb_fallback'', projectId = None,
       baseUrl = ''https://fallback.example.com'',
       promptOnStart = Some False, autoSyncSkills = None \<rparr>) = ''https://api.browserbase.com''"
proof -
  let ?f = "[(''apiKey'', JStr '' bb_fallback ''),
       (''promptOnStart'', JBool False), (''baseUrl'', JStr ''https://fallback.example.com'')]"
  let ?P = "\<lparr> apiKey = None, projectId = None, baseUrl = ''https://api.browserbase.com'',
       promptOnStart = None, autoSyncSkills = None \<rparr>"
  let ?F = "\<lparr> apiKey = Some ''bb_fallback'', projectId = None,
       baseUrl = ''https://fallback.example.com'',
       promptOnStart = Some False, autoSyncSkills = None \<rparr>"
  have t: "trim ''https://fallback.example.com'' = ''https://fallback.example.com''"
    "trim '' bb_fallback '' = ''bb_fallback''"
    by (simp_all add: trim_def is_js_space_def)
  have r: "resolveEnvVars Map.empty ''https://fallback.example.com'' = Inr ''https://fallback.example.com''"
    "resolveEnvVars Map.empty ''bb_fallback'' = Inr ''bb_fallback''"
    by simp_all
  have u: "unknownKeys ?f = []"
    by (simp add: unknownKeys_def keys_def ALLOWED_KEYS_def)
  have o: "parseOptionalString Map.empty (js_get ?f ''apiKey'') = Inr (Some ''bb_fallback'')"
    by (simp add: js_get_def parseOptionalString_def t r)
  have 1: "parseConfig Map.empty (JObj []) = Inr ?P"
    by (simp add: parseConfig_record unknownKeys_def keys_def js_get_def credential_def
        parseOptionalString_def parseBaseUrl_def DEFAULT_BASE_URL_def)
  have 2: "parseConfig Map.empty (JObj ?f) = Inr ?F"
    by (simp add: parseConfig_record u js_get_def credential_def
        parseOptionalString_def parseBaseUrl_def t r)
  have h: "typeof (js_get [] ''promptOnStart'') \<noteq> TBoolean"
    "js_get ?f ''promptOnStart'' = JBool False"
    "no_explicit_value Map.empty (js_get [] ''apiKey'') \<and> Map.empty ''BROWSERBASE_API_KEY'' = None"
    "\<forall>s. js_get [] ''baseUrl'' = JStr s \<longrightarrow> trim s = []"
    by (simp_all add: js_get_def no_explicit_value_def)
  note m = mergeConfig_unset_falls_through [OF 1 2]
  from m h(1,2) have 3: "promptOnStart (mergeConfig ?P ?F) = Some False" by blast
  from m h(3) o have 4: "apiKey (mergeConfig ?P ?F) = Some ''bb_fallback''" by blast
  from m h(4) have 5: "baseUrl (mergeConfig ?P ?F) = DEFAULT_BASE_URL" by blast
  from 1 2 3 4 5 show ?thesis by (simp add: DEFAULT_BASE_URL_def)
qed

subsection \<open>Placeholder failures\<close>









subsection \<open>Credentials read from the environment\<close>

text \<open>
  C10. The environment fallback is not trimmed and not checked for emptiness: for a record
  that parses and yields no \<open>apiKey\<close> value of its own, the parsed \<open>apiKey\<close> is exactly
  what \<^verbatim>\<open>BROWSERBASE_API_KEY\<close> holds, the empty string or blanks included; being defined, it
  is the merged \<open>apiKey\<close> whatever the fallback configuration holds. The same holds for
  \<open>projectId\<close> and \<^verbatim>\<open>BROWSERBASE_PROJECT_ID\<close>.
\<close>

theorem env_credential_not_checked:
  "set (keys kvs) \<subseteq> set ALLOWED_KEYS \<and>
   (\<forall>t. js_get kvs ''baseUrl'' = JStr t \<longrightarrow> (\<forall>n \<in> set (placeholders t). env_set env n))
   \<longrightarrow>
   (\<exists>P. parseConfig env (JObj kvs) = Inr P \<and>
      (no_explicit_value env (js_get kvs ''apiKey'') \<longrightarrow>
         apiKey P = env ''BROWSERBASE_API_KEY'' \<and>
         (\<forall>w. env ''BROWSERBASE_API_KEY'' = Some w \<longrightarrow>
            (\<forall>F. apiKey (mergeConfig P F) = Some w))) \<and>
      (no_explicit_value env (js_get kvs ''projectId'') \<longrightarrow>
         projectId P = env ''BROWSERBASE_PROJECT_ID'' \<and>
         (\<forall>w. env ''BROWSERBASE_PROJECT_ID'' = Some w \<longrightarrow>
            (\<forall>F. projectId (mergeConfig P F) = Some w))))"
proof
  assume a: "set (keys kvs) \<subseteq> set ALLOWED_KEYS \<and>
   (\<forall>t. js_get kvs ''baseUrl'' = JStr t \<longrightarrow> (\<forall>n \<in> set (placeholders t). env_set env n))"
  then obtain P where P: "parseConfig env (JObj kvs) = Inr P"
    using parseConfig_succeeds by blast
  have 1: "apiKey P = env ''BROWSERBASE_API_KEY'' \<and>
         (\<forall>w. env ''BROWSERBASE_API_KEY'' = Some w \<longrightarrow> (\<forall>F. apiKey (mergeConfig P F) = Some w))"
    if "no_explicit_value env (js_get kvs ''apiKey'')"
    using that by (simp add: parseConfig_Inr_fields(1) [OF P] credential_no_explicit_value mergeConfig_def)
  have 2: "projectId P = env ''BROWSERBASE_PROJECT_ID'' \<and>
         (\<forall>w. env ''BROWSERBASE_PROJECT_ID'' = Some w \<longrightarrow> (\<forall>F. projectId (mergeConfig P F) = Some w))"
    if "no_explicit_value env (js_get kvs ''projectId'')"
    using that by (simp add: parseConfig_Inr_fields(2) [OF P] credential_no_explicit_value mergeConfig_def)
  from P 1 2 show "\<exists>P. parseConfig env (JObj kvs) = Inr P \<and>
      (no_explicit_value env (js_get kvs ''apiKey'') \<longrightarrow>
         apiKey P = env ''BROWSERBASE_API_KEY'' \<and>
         (\<forall>w. env ''BROWSERBASE_API_KEY'' = Some w \<longrightarrow>
            (\<forall>F. apiKey (mergeConfig P F) = Some w))) \<and>
      (no_explicit_value env (js_get kvs ''projectId'') \<longrightarrow>
         projectId P = env ''BROWSERBASE_PROJECT_ID'' \<and>
         (\<forall>w. env ''BROWSERBASE_PROJECT_ID'' = Some w \<longrightarrow>
            (\<forall>F. projectId (mergeConfig P F) = Some w)))"
    by blast
qed

text \<open>
  The theorem at a record without credentials, with \<^verbatim>\<open>BROWSERBASE_API_KEY\<close> empty and
  \<^verbatim>\<open>BROWSERBASE_PROJECT_ID\<close> two blanks, merged over a fallback with real credentials.
\<close>

theorem env_credential_not_checked_witness:
  "parseConfig [''BROWSERBASE_API_KEY'' \<mapsto> [], ''BROWSERBASE_PROJECT_ID'' \<mapsto> ''  '']
      (JObj [(''promptOnStart'', JBool True)]) =
     Inr \<lparr> apiKey = Some [], projectId = Some ''  '',
           baseUrl = ''https://api.browserbase.com'', promptOnStart = Some True,
           autoSyncSkills = None \<rparr> \<and>
   apiKey (mergeConfig
      \<lparr> apiKey = Some [], projectId = Some ''  '',
        baseUrl = ''https://api.browserbase.com'', promptOnStart = Some True,
        autoSyncSkills = None \<rparr>
      \<lparr> apiKey = Some ''bb_real'', projectId = Some ''proj_real'',
        baseUrl = ''https://api.browserbase.com'', promptOnStart = None,
        autoSyncSkills = None \<rparr>) = Some [] \<and>
   projectId (mergeConfig
      \<lparr> apiKey = Some [], projectId = Some ''  '',
        baseUrl = ''https://api.browserbase.com'', promptOnStart = Some True,
        autoSyncSkills = None \<rparr>
      \<lparr> apiKey = Some ''bb_real'', projectId = Some ''proj_real'',
        baseUrl = ''https://api.browserbase.com'', promptOnStart = None,
        autoSyncSkills = None \<rparr>) = Some ''  ''"
proof -
  let ?env = "[''BROWSERBASE_API_KEY'' \<mapsto> [], ''BROWSERBASE_PROJECT_ID'' \<mapsto> ''  '']"
  let ?kvs = "[(''promptOnStart'', JBool True)]"
  let ?P = "\<lparr> apiKey = Some [], projectId = Some ''  '',
        baseUrl = ''https://api.browserbase.com'', promptOnStart = Some True,
        autoSyncSkills = None \<rparr>"
  have h: "set (keys ?kvs) \<subseteq> set ALLOWED_KEYS \<and>
      (\<forall>t. js_get ?kvs ''baseUrl'' = JStr t \<longrightarrow> (\<forall>n \<in> set (placeholders t). env_set ?env n))"
    by (simp add: js_get_def keys_def ALLOWED_KEYS_def)
  have n: "no_explicit_value ?env (js_get ?kvs ''apiKey'')"
    "no_explicit_value ?env (js_get ?kvs ''projectId'')"
    by (simp_all add: js_get_def no_explicit_value_def)
  have e: "?env ''BROWSERBASE_API_KEY'' = Some []" "?env ''BROWSERBASE_PROJECT_ID'' = Some ''  ''"
    by simp_all
  have u: "unknownKeys ?kvs = []"
    by (simp add: unknownKeys_def keys_def ALLOWED_KEYS_def)
  have v: "parseConfig ?env (JObj ?kvs) = Inr ?P"
    by (simp add: parseConfig_record u js_get_def credential_def parseOptionalString_def
        parseBaseUrl_def DEFAULT_BASE_URL_def)
  from env_credential_not_checked [of ?kvs ?env] h n
  obtain P where P: "parseConfig ?env (JObj ?kvs) = Inr P"
    and a: "\<forall>w. ?env ''BROWSERBASE_API_KEY'' = Some w \<longrightarrow> (\<forall>F. apiKey (mergeConfig P F) = Some w)"
    and b: "\<forall>w. ?env ''BROWSERBASE_PROJECT_ID'' = Some w \<longrightarrow> (\<forall>F. projectId (mergeConfig P F) = Some w)"
    by blast
  from P v have PP: "P = ?P" by simp
  from a e(1) have a': "\<forall>F. apiKey (mergeConfig P F) = Some []" by blast
  from b e(2) have b': "\<forall>F. projectId (mergeConfig P F) = Some ''  ''" by blast
  from v a' b' show ?thesis unfolding PP by blast
qed

section \<open>Properties of config-store.ts\<close>

lemma replace_all_append: "replace_all c r (a @ b) = replace_all c r a @ replace_all c r b"
  by (simp add: replace_all_def)

lemma replace_all_Nil: "replace_all c r [] = []"
  by (simp add: replace_all_def)

lemma replace_all_Cons: "replace_all c r (x # xs) = (if x = c then r else [x]) @ replace_all c r xs"
  by (simp add: replace_all_def)

lemma escape_chain:
  "replace_all (CHR 0x0D) [CHR 0x5C, CHR ''r'']
          (replace_all (CHR 0x0A) [CHR 0x5C, CHR ''n'']
            (replace_all (CHR 0x22) [CHR 0x5C, CHR 0x22]
              (replace_all (CHR 0x5C) [CHR 0x5C, CHR 0x5C] v))) = concat (map spec_escape_char v)"
  by (induction v) (simp_all add: replace_all_Nil replace_all_Cons replace_all_append spec_escape_char_def)

lemma needs_quotes_iff:
  "(list_ex quote_class v \<or> CHR 0x0A \<in> set v \<or> CHR 0x0D \<in> set v) \<longleftrightarrow> spec_needs_quotes v"
  by (auto simp: list_ex_iff quote_class_def spec_needs_quotes_def is_js_space_def)

text \<open>
  C6, as stated, fails for a short secret that contains an asterisk: the asterisk is a
  character of the input and appears in the output. (The empty string, whose length is at
  most 8, gives \<open>not set\<close> and no asterisks; the amended statement speaks of non-empty
  strings.)
\<close>

theorem maskSecret_short_reveals_asterisk:
  "maskSecret (Some ''a*b'') = ''****'' \<and>
   CHR ''*'' \<in> set ''a*b'' \<and> CHR ''*'' \<in> set (maskSecret (Some ''a*b'')) \<and>
   length ([] :: string) \<le> 8 \<and> maskSecret (Some []) = ''not set''"
  by (simp add: maskSecret_def)

text \<open>
  C6, amended. \<open>maskSecret\<close> returns \<open>not set\<close> for \<^verbatim>\<open>undefined\<close> and for the empty
  string. For a non-empty string of at most 8 characters it returns asterisks only, as many
  as the larger of 4 and the input's length, so the result depends on the input's length
  alone and no character of the input other than the asterisk appears in it. For a longer
  string it returns the first 4 characters, three dots and the last 4 characters.
\<close>

theorem maskSecret_contract:
  "maskSecret None = ''not set'' \<and>
   maskSecret (Some []) = ''not set'' \<and>
   (s \<noteq> [] \<and> length s \<le> 8 \<longrightarrow>
      maskSecret (Some s) = replicate (max 4 (length s)) (CHR ''*'') \<and>
      set (maskSecret (Some s)) = {CHR ''*''} \<and>
      4 \<le> length (maskSecret (Some s)) \<and>
      length s \<le> length (maskSecret (Some s)) \<and>
      (\<forall>c \<in> set s. c \<noteq> CHR ''*'' \<longrightarrow> c \<notin> set (maskSecret (Some s))) \<and>
      (\<forall>t. length t = length s \<longrightarrow> maskSecret (Some t) = maskSecret (Some s))) \<and>
   (8 < length s \<longrightarrow>
      maskSecret (Some s) = take 4 s @ ''...'' @ rev (take 4 (rev s)) \<and>
      length (maskSecret (Some s)) = 11)"
proof (intro conjI impI)
  show "maskSecret None = ''not set''" by (simp add: maskSecret_def)
  show "maskSecret (Some []) = ''not set''" by (simp add: maskSecret_def)
next
  assume a: "s \<noteq> [] \<and> length s \<le> 8"
  then show m: "maskSecret (Some s) = replicate (max 4 (length s)) (CHR ''*'')"
    by (simp add: maskSecret_def)
  have "max 4 (length s) \<noteq> 0" by simp
  then show "set (maskSecret (Some s)) = {CHR ''*''}"
    unfolding m by (rule set_replicate)
  show "4 \<le> length (maskSecret (Some s))" unfolding m by simp
  show "length s \<le> length (maskSecret (Some s))" unfolding m by simp
  show "\<forall>c \<in> set s. c \<noteq> CHR ''*'' \<longrightarrow> c \<notin> set (maskSecret (Some s))"
    unfolding m by simp
  show "\<forall>t. length t = length s \<longrightarrow> maskSecret (Some t) = maskSecret (Some s)"
  proof (intro allI impI)
    fix t :: string assume "length t = length s"
    with a show "maskSecret (Some t) = maskSecret (Some s)"
      by (auto simp: maskSecret_def)
  qed
next
  assume a: "8 < length s"
  then have "s \<noteq> []" by auto
  with a show m: "maskSecret (Some s) = take 4 s @ ''...'' @ rev (take 4 (rev s))"
    by (simp add: maskSecret_def take_rev)
  from a show "length (maskSecret (Some s)) = 11"
    unfolding m by simp
qed

text \<open>The theorem at three short secrets and at the long secret of the test suite.\<close>

theorem maskSecret_contract_witness:
  "maskSecret (Some ''short'') = ''*****'' \<and>
   maskSecret (Some ''abc'') = ''****'' \<and>
   maskSecret (Some ''12345678'') = ''********'' \<and>
   maskSecret (Some ''bb_live_abcdefghijklmnop'') = ''bb_l...mnop''"
proof -
  have h: "''short'' \<noteq> [] \<and> length ''short'' \<le> 8" "''abc'' \<noteq> [] \<and> length ''abc'' \<le> 8"
    "''12345678'' \<noteq> [] \<and> length ''12345678'' \<le> 8"
    "8 < length ''bb_live_abcdefghijklmnop''"
    by simp_all
  from maskSecret_contract [of "''short''"] h(1)
  have 1: "maskSecret (Some ''short'') = replicate (max 4 (length ''short'')) (CHR ''*'')"
    by blast
  from maskSecret_contract [of "''abc''"] h(2)
  have 2: "maskSecret (Some ''abc'') = replicate (max 4 (length ''abc'')) (CHR ''*'')"
    by blast
  from maskSecret_contract [of "''12345678''"] h(3)
  have 3: "maskSecret (Some ''12345678'') = replicate (max 4 (length ''12345678'')) (CHR ''*'')"
    by blast
  from maskSecret_contract [of "''bb_live_abcdefghijklmnop''"] h(4)
  have 4: "maskSecret (Some ''bb_live_abcdefghijklmnop'') =
      take 4 ''bb_live_abcdefghijklmnop'' @ ''...'' @ rev (take 4 (rev ''bb_live_abcdefghijklmnop''))"
    by blast
  have r: "replicate 5 (CHR ''*'') = ''*****''" "replicate 4 (CHR ''*'') = ''****''"
    "replicate 8 (CHR ''*'') = ''********''"
    by (simp_all add: numeral_eq_Suc)
  from 1 2 3 4 r show ?thesis by simp
qed

text \<open>
  C7. \<open>dotenvEscape\<close> returns a value unchanged when it contains no white space, quote,
  hash, equals sign, backslash, line feed or carriage return. Otherwise it returns the value
  between double quotes with every backslash, double quote, line feed and carriage return
  of the value escaped exactly once: the four substitutions, the backslash's first, amount
  to one pass that escapes each character on its own, so no backslash introduced by a later
  substitution is escaped again.
\<close>

theorem dotenvEscape_spec:
  "(\<not> spec_needs_quotes v \<longrightarrow> dotenvEscape v = v) \<and>
   (spec_needs_quotes v \<longrightarrow>
      dotenvEscape v = [CHR 0x22] @ concat (map spec_escape_char v) @ [CHR 0x22])"
  using needs_quotes_iff [of v] by (simp add: dotenvEscape_def escape_chain)

text \<open>
  The theorem at a plain value, at a value with a blank, and at a value holding a backslash,
  a double quote, a line feed and a carriage return.
\<close>

theorem dotenvEscape_spec_witness:
  "dotenvEscape ''bb_live_abc123'' = ''bb_live_abc123'' \<and>
   dotenvEscape ''hello world'' = [CHR 0x22] @ ''hello world'' @ [CHR 0x22] \<and>
   dotenvEscape [CHR ''a'', CHR 0x5C, CHR 0x22, CHR 0x0A, CHR 0x0D] =
     [CHR 0x22, CHR ''a'', CHR 0x5C, CHR 0x5C, CHR 0x5C, CHR 0x22, CHR 0x5C, CHR ''n'',
      CHR 0x5C, CHR ''r'', CHR 0x22]"
proof -
  have h: "\<not> spec_needs_quotes ''bb_live_abc123''" "spec_needs_quotes ''hello world''"
    "spec_needs_quotes [CHR ''a'', CHR 0x5C, CHR 0x22, CHR 0x0A, CHR 0x0D]"
    by (simp_all add: spec_needs_quotes_def is_js_space_def)
  from dotenvEscape_spec [of "''bb_live_abc123''"] h(1)
  have 1: "dotenvEscape ''bb_live_abc123'' = ''bb_live_abc123''" by blast
  from dotenvEscape_spec [of "''hello world''"] h(2)
  have 2: "dotenvEscape ''hello world'' =
      [CHR 0x22] @ concat (map spec_escape_char ''hello world'') @ [CHR 0x22]" by blast
  from dotenvEscape_spec [of "[CHR ''a'', CHR 0x5C, CHR 0x22, CHR 0x0A, CHR 0x0D]"] h(3)
  have 3: "dotenvEscape [CHR ''a'', CHR 0x5C, CHR 0x22, CHR 0x0A, CHR 0x0D] =
      [CHR 0x22] @ concat (map spec_escape_char [CHR ''a'', CHR 0x5C, CHR 0x22, CHR 0x0A, CHR 0x0D])
        @ [CHR 0x22]" by blast
  from 1 2 3 show ?thesis by (simp add: spec_escape_char_def)
qed

section \<open>Properties of skills-sync.ts\<close>

subsection \<open>Paths\<close>

lemma split_slash_ne: "split_slash s \<noteq> []"
  by (induction s) (auto split: list.splits)

lemma split_slash_append:
  "split_slash (x @ CHR ''/'' # y) = split_slash x @ split_slash y"
  by (induction x) (auto simp: split_slash_ne split: list.splits)

lemma split_slash_name: "CHR ''/'' \<notin> set s \<Longrightarrow> split_slash s = [s]"
  by (induction s) auto

lemma join_snoc: "xs \<noteq> [] \<Longrightarrow> join sep (xs @ [a]) = join sep xs @ sep @ a"
  by (induction sep xs rule: join.induct) auto

lemma normalize_segment_name:
  "segment_name a \<Longrightarrow> normalize_segment al res a = res @ [a]"
  by (simp add: normalize_segment_def segment_name_def)

lemma last_not_member: "b \<noteq> [] \<Longrightarrow> c \<notin> set b \<Longrightarrow> last b \<noteq> c"
  using last_in_set by metis

lemma path_join_root:
  assumes a: "segment_name a" and b: "segment_name b"
  shows "path_join [root, a @ CHR ''/'' # b] = root_prefix root @ a @ CHR ''/'' # b"
proof (cases "root = []")
  case True
  from a b have s: "split_slash (a @ CHR ''/'' # b) = [a, b]"
    by (simp add: split_slash_append split_slash_name segment_name_def)
  from a have h: "hd (a @ CHR ''/'' # b) \<noteq> CHR ''/''"
    by (cases a) (auto simp: segment_name_def)
  from b have l: "last (a @ CHR ''/'' # b) \<noteq> CHR ''/''"
    by (simp add: segment_name_def last_not_member)
  from True s h l a b show ?thesis
    by (simp add: path_join_def path_normalize_def normalizeString_def Let_def
        normalize_segment_name root_prefix_def)
next
  case False
  define segs where "segs = foldl (normalize_segment (hd root \<noteq> CHR ''/'')) [] (split_slash root)"
  from a b have s: "split_slash (root @ CHR ''/'' # a @ CHR ''/'' # b) = split_slash root @ [a, b]"
    by (simp add: split_slash_append split_slash_name segment_name_def)
  from False have h: "hd (root @ CHR ''/'' # a @ CHR ''/'' # b) = hd root" by simp
  from b have l: "last (root @ CHR ''/'' # a @ CHR ''/'' # b) \<noteq> CHR ''/''"
    by (simp add: segment_name_def last_not_member)
  have j: "join ''/'' (segs @ [a, b]) = (if segs = [] then [] else join ''/'' segs @ ''/'') @ a @ CHR ''/'' # b"
    using join_snoc [of "segs @ [a]" "''/''" b] join_snoc [of segs "''/''" a]
    by (cases "segs = []") simp_all
  from a have ne: "a \<noteq> []" by (simp add: segment_name_def)
  have n: "normalizeString (root @ CHR ''/'' # a @ CHR ''/'' # b) (hd root \<noteq> CHR ''/'') =
      (if segs = [] then [] else join ''/'' segs @ ''/'') @ a @ CHR ''/'' # b"
    unfolding normalizeString_def s using a b
    by (simp add: normalize_segment_name segs_def [symmetric] j del: join.simps)
  from False have jn: "join ''/'' (filter (\<lambda>arg. arg \<noteq> []) [root, a @ CHR ''/'' # b]) =
      root @ CHR ''/'' # a @ CHR ''/'' # b"
    by simp
  have pn: "path_normalize (root @ CHR ''/'' # a @ CHR ''/'' # b) =
      (if hd root = CHR ''/'' then ''/'' else []) @
      (if segs = [] then [] else join ''/'' segs @ ''/'') @ a @ CHR ''/'' # b"
    unfolding path_normalize_def Let_def h n using l ne by simp
  have rp: "root_prefix root =
      (if hd root = CHR ''/'' then ''/'' else []) @ (if segs = [] then [] else join ''/'' segs @ ''/'')"
    using False by (simp add: root_prefix_def Let_def segs_def)
  show ?thesis
    unfolding path_join_def Let_def jn pn rp by simp
qed

lemma path_join3:
  "a \<noteq> [] \<Longrightarrow> b \<noteq> [] \<Longrightarrow> path_join [root, a, b] = path_join [root, a @ CHR ''/'' # b]"
  by (simp add: path_join_def)

lemma path_join_names:
  assumes "segment_name a" "segment_name b"
  shows "path_join [a, b] = a @ CHR ''/'' # b"
proof -
  from assms have "path_join [a, b] = path_join [[], a @ CHR ''/'' # b]"
    by (simp add: path_join_def segment_name_def)
  with path_join_root [OF assms, of "[]"] show ?thesis
    by (simp add: root_prefix_def)
qed

lemma dirname_append:
  assumes "CHR ''/'' \<notin> set b" "b \<noteq> []" "length a > 1"
  shows "dirname (a @ CHR ''/'' # b) = a"
proof -
  from assms(3) obtain x t where a: "a = x # t" "t \<noteq> []" by (cases a) auto
  from assms(2) have "rev b \<noteq> []" by simp
  then obtain y ys where rb: "rev b = y # ys" by (cases "rev b") auto
  with assms(1) have y: "y \<noteq> CHR ''/''" by (metis list.set_intros(1) set_rev)
  have 1: "dropWhile (\<lambda>c. c = CHR ''/'') (rev b @ CHR ''/'' # rev t) = rev b @ CHR ''/'' # rev t"
    using rb y by simp
  from assms(1) have 2: "dropWhile (\<lambda>c. c \<noteq> CHR ''/'') (rev b @ CHR ''/'' # rev t) = CHR ''/'' # rev t"
    by (auto simp: dropWhile_append3)
  show ?thesis using a
    by (simp add: dirname_def 1 2 Let_def)
qed

lemma segment_names:
  "segment_name ''browser-automation''" "segment_name ''functions''" "segment_name ''browser''"
  "segment_name ''SKILL.md''" "segment_name ''EXAMPLES.md''" "segment_name ''REFERENCE.md''"
  "segment_name ''setup.json''"
  by (simp_all add: segment_name_def)

lemma destinationPaths:
  "map destinationPath SKILL_FILE_MAP =
     [''browser-automation/SKILL.md'', ''browser-automation/EXAMPLES.md'',
      ''browser-automation/REFERENCE.md'', ''browser-automation/setup.json'',
      ''functions/SKILL.md'']"
  by (simp add: SKILL_FILE_MAP_def path_join_names segment_names)

lemma path_join_destinations:
  "path_join [root, ''browser-automation/SKILL.md''] = root_prefix root @ ''browser-automation/SKILL.md''"
  "path_join [root, ''browser-automation/EXAMPLES.md''] = root_prefix root @ ''browser-automation/EXAMPLES.md''"
  "path_join [root, ''browser-automation/REFERENCE.md''] = root_prefix root @ ''browser-automation/REFERENCE.md''"
  "path_join [root, ''browser-automation/setup.json''] = root_prefix root @ ''browser-automation/setup.json''"
  "path_join [root, ''functions/SKILL.md''] = root_prefix root @ ''functions/SKILL.md''"
  "path_join [root, ''browser/SKILL.md''] = root_prefix root @ ''browser/SKILL.md''"
  using path_join_root [of "''browser-automation''" "''SKILL.md''" root]
    path_join_root [of "''browser-automation''" "''EXAMPLES.md''" root]
    path_join_root [of "''browser-automation''" "''REFERENCE.md''" root]
    path_join_root [of "''browser-automation''" "''setup.json''" root]
    path_join_root [of "''functions''" "''SKILL.md''" root]
    path_join_root [of "''browser''" "''SKILL.md''" root]
  by (simp_all add: segment_names)

lemma expectedSkillFiles_paths:
  "expectedSkillFiles root =
     [path_join [root, ''browser-automation/SKILL.md''],
      path_join [root, ''browser-automation/EXAMPLES.md''],
      path_join [root, ''browser-automation/REFERENCE.md''],
      path_join [root, ''browser-automation/setup.json''],
      path_join [root, ''functions/SKILL.md'']]"
proof -
  have "expectedSkillFiles root = map (\<lambda>d. path_join [root, d]) (map destinationPath SKILL_FILE_MAP)"
    by (simp add: expectedSkillFiles_def comp_def)
  then show ?thesis by (simp only: destinationPaths list.map)
qed

lemma expectedSkillFiles_eq:
  "expectedSkillFiles root =
     [root_prefix root @ ''browser-automation/SKILL.md'',
      root_prefix root @ ''browser-automation/EXAMPLES.md'',
      root_prefix root @ ''browser-automation/REFERENCE.md'',
      root_prefix root @ ''browser-automation/setup.json'',
      root_prefix root @ ''functions/SKILL.md'']"
  by (simp only: expectedSkillFiles_paths path_join_destinations)

lemma archive_paths:
  "path_join [root, ''browser'', ''SKILL.md''] = root_prefix root @ ''browser/SKILL.md''"
  "path_join [root, ''functions'', ''SKILL.md''] = root_prefix root @ ''functions/SKILL.md''"
  using path_join3 [of "''browser''" "''SKILL.md''" root]
    path_join3 [of "''functions''" "''SKILL.md''" root]
  by (simp_all add: path_join_destinations)

lemma distinct_destinations: "distinct (expectedSkillFiles root)"
  by (simp add: expectedSkillFiles_eq)

subsection \<open>The completeness probe\<close>

text \<open>
  C8. \<open>hasBrowserbaseSkills\<close> holds exactly when every expected file exists: in the
  per-file revision the five paths of \<open>expectedSkillFiles\<close>, which are the joins of the
  target directory with the five destination paths and are pairwise different, in the
  archive revision the join of the target directory with each required directory and
  \<^verbatim>\<open>SKILL.md\<close>. One missing expected path makes it false. The target directory is any
  string; \<^verbatim>\<open>path.join\<close> normalises it.
\<close>

theorem hasBrowserbaseSkills_complete:
  "(hasBrowserbaseSkills fs root \<longleftrightarrow> (\<forall>p \<in> set (expectedSkillFiles root). existsSync fs p)) \<and>
   (p \<in> set (expectedSkillFiles root) \<and> \<not> existsSync fs p \<longrightarrow> \<not> hasBrowserbaseSkills fs root) \<and>
   expectedSkillFiles root =
     [path_join [root, ''browser-automation/SKILL.md''],
      path_join [root, ''browser-automation/EXAMPLES.md''],
      path_join [root, ''browser-automation/REFERENCE.md''],
      path_join [root, ''browser-automation/setup.json''],
      path_join [root, ''functions/SKILL.md'']] \<and>
   distinct (expectedSkillFiles root) \<and>
   (hasBrowserbaseSkills fs root \<longleftrightarrow>
      existsSync fs (path_join [root, ''browser-automation/SKILL.md'']) \<and>
      existsSync fs (path_join [root, ''browser-automation/EXAMPLES.md'']) \<and>
      existsSync fs (path_join [root, ''browser-automation/REFERENCE.md'']) \<and>
      existsSync fs (path_join [root, ''browser-automation/setup.json'']) \<and>
      existsSync fs (path_join [root, ''functions/SKILL.md''])) \<and>
   (hasBrowserbaseSkills_archive fs root \<longleftrightarrow>
      existsSync fs (path_join [root, ''browser'', ''SKILL.md'']) \<and>
      existsSync fs (path_join [root, ''functions'', ''SKILL.md'']))"
proof (intro conjI)
  show 1: "hasBrowserbaseSkills fs root \<longleftrightarrow> (\<forall>p \<in> set (expectedSkillFiles root). existsSync fs p)"
    by (simp add: hasBrowserbaseSkills_def list_all_iff)
  then show "p \<in> set (expectedSkillFiles root) \<and> \<not> existsSync fs p \<longrightarrow> \<not> hasBrowserbaseSkills fs root"
    by blast
  show "expectedSkillFiles root =
     [path_join [root, ''browser-automation/SKILL.md''],
      path_join [root, ''browser-automation/EXAMPLES.md''],
      path_join [root, ''browser-automation/REFERENCE.md''],
      path_join [root, ''browser-automation/setup.json''],
      path_join [root, ''functions/SKILL.md'']]"
    by (rule expectedSkillFiles_paths)
  show "distinct (expectedSkillFiles root)"
    by (rule distinct_destinations)
  show "hasBrowserbaseSkills fs root \<longleftrightarrow>
      existsSync fs (path_join [root, ''browser-automation/SKILL.md'']) \<and>
      existsSync fs (path_join [root, ''browser-automation/EXAMPLES.md'']) \<and>
      existsSync fs (path_join [root, ''browser-automation/REFERENCE.md'']) \<and>
      existsSync fs (path_join [root, ''browser-automation/setup.json'']) \<and>
      existsSync fs (path_join [root, ''functions/SKILL.md''])"
    unfolding hasBrowserbaseSkills_def expectedSkillFiles_paths by simp
  show "hasBrowserbaseSkills_archive fs root \<longleftrightarrow>
      existsSync fs (path_join [root, ''browser'', ''SKILL.md'']) \<and>
      existsSync fs (path_join [root, ''functions'', ''SKILL.md''])"
    by (simp add: hasBrowserbaseSkills_archive_def REQUIRED_SKILL_DIRS_def)
qed

lemma root_prefix_examples:
  "root_prefix ''/r'' = ''/r/''" "root_prefix ''/r/'' = ''/r/''"
  "root_prefix ''/x/../r//.'' = ''/r/''" "root_prefix [] = []" "root_prefix ''/'' = ''/''"
  by (simp_all add: root_prefix_def normalize_segment_def)

text \<open>
  The theorem at the empty file system, at one holding four of the five files, and at one
  holding all five, with the target directory written with a trailing separator; and at the
  target directory given as the empty string, where the expected paths are relative.
\<close>

theorem hasBrowserbaseSkills_complete_witness:
  "\<not> hasBrowserbaseSkills Map.empty ''/r/'' \<and>
   \<not> hasBrowserbaseSkills
      [''/r/browser-automation/SKILL.md'' \<mapsto> File ''content'',
       ''/r/browser-automation/EXAMPLES.md'' \<mapsto> File ''content'',
       ''/r/browser-automation/REFERENCE.md'' \<mapsto> File ''content'',
       ''/r/browser-automation/setup.json'' \<mapsto> File ''content''] ''/r/'' \<and>
   hasBrowserbaseSkills
      [''/r/browser-automation/SKILL.md'' \<mapsto> File ''content'',
       ''/r/browser-automation/EXAMPLES.md'' \<mapsto> File ''content'',
       ''/r/browser-automation/REFERENCE.md'' \<mapsto> File ''content'',
       ''/r/browser-automation/setup.json'' \<mapsto> File ''content'',
       ''/r/functions/SKILL.md'' \<mapsto> File ''content''] ''/r/'' \<and>
   expectedSkillFiles ''/r/'' =
     [''/r/browser-automation/SKILL.md'', ''/r/browser-automation/EXAMPLES.md'',
      ''/r/browser-automation/REFERENCE.md'', ''/r/browser-automation/setup.json'',
      ''/r/functions/SKILL.md''] \<and>
   expectedSkillFiles [] =
     [''browser-automation/SKILL.md'', ''browser-automation/EXAMPLES.md'',
      ''browser-automation/REFERENCE.md'', ''browser-automation/setup.json'',
      ''functions/SKILL.md'']"
proof -
  let ?four = "[''/r/browser-automation/SKILL.md'' \<mapsto> File ''content'',
       ''/r/browser-automation/EXAMPLES.md'' \<mapsto> File ''content'',
       ''/r/browser-automation/REFERENCE.md'' \<mapsto> File ''content'',
       ''/r/browser-automation/setup.json'' \<mapsto> File ''content'']"
  let ?five = "[''/r/browser-automation/SKILL.md'' \<mapsto> File ''content'',
       ''/r/browser-automation/EXAMPLES.md'' \<mapsto> File ''content'',
       ''/r/browser-automation/REFERENCE.md'' \<mapsto> File ''content'',
       ''/r/browser-automation/setup.json'' \<mapsto> File ''content'',
       ''/r/functions/SKILL.md'' \<mapsto> File ''content'']"
  have j: "path_join [''/r/'', ''browser-automation/SKILL.md''] = ''/r/browser-automation/SKILL.md''"
    "path_join [''/r/'', ''browser-automation/EXAMPLES.md''] = ''/r/browser-automation/EXAMPLES.md''"
    "path_join [''/r/'', ''browser-automation/REFERENCE.md''] = ''/r/browser-automation/REFERENCE.md''"
    "path_join [''/r/'', ''browser-automation/setup.json''] = ''/r/browser-automation/setup.json''"
    "path_join [''/r/'', ''functions/SKILL.md''] = ''/r/functions/SKILL.md''"
    "path_join [[], ''browser-automation/SKILL.md''] = ''browser-automation/SKILL.md''"
    "path_join [[], ''browser-automation/EXAMPLES.md''] = ''browser-automation/EXAMPLES.md''"
    "path_join [[], ''browser-automation/REFERENCE.md''] = ''browser-automation/REFERENCE.md''"
    "path_join [[], ''browser-automation/setup.json''] = ''browser-automation/setup.json''"
    "path_join [[], ''functions/SKILL.md''] = ''functions/SKILL.md''"
    by (simp_all add: path_join_destinations root_prefix_examples)
  note t0 = hasBrowserbaseSkills_complete [of Map.empty "''/r/''" "''/r/functions/SKILL.md''"]
  from t0 have x: "expectedSkillFiles ''/r/'' =
     [''/r/browser-automation/SKILL.md'', ''/r/browser-automation/EXAMPLES.md'',
      ''/r/browser-automation/REFERENCE.md'', ''/r/browser-automation/setup.json'',
      ''/r/functions/SKILL.md'']"
    unfolding j by blast
  from hasBrowserbaseSkills_complete [of Map.empty "[]" "[]"]
  have y: "expectedSkillFiles [] =
     [''browser-automation/SKILL.md'', ''browser-automation/EXAMPLES.md'',
      ''browser-automation/REFERENCE.md'', ''browser-automation/setup.json'',
      ''functions/SKILL.md'']"
    unfolding j by blast
  have m: "''/r/functions/SKILL.md'' \<in> set (expectedSkillFiles ''/r/'')"
    by (simp add: x)
  have e: "\<not> existsSync Map.empty ''/r/functions/SKILL.md''"
    "\<not> existsSync ?four ''/r/functions/SKILL.md''"
    by (simp_all add: existsSync_def)
  have a: "\<forall>p \<in> set (expectedSkillFiles ''/r/''). existsSync ?five p"
    by (simp add: x existsSync_def)
  from t0 m e(1)
  have 1: "\<not> hasBrowserbaseSkills Map.empty ''/r/''" by blast
  from hasBrowserbaseSkills_complete [of ?four "''/r/''" "''/r/functions/SKILL.md''"] m e(2)
  have 2: "\<not> hasBrowserbaseSkills ?four ''/r/''" by blast
  from hasBrowserbaseSkills_complete [of ?five "''/r/''"] a
  have 3: "hasBrowserbaseSkills ?five ''/r/''" by blast
  from 1 2 3 x y show ?thesis by blast
qed

subsection \<open>Writing one file\<close>

lemma foldl_mkdir:
  "foldl (\<lambda>fs a. if fs a = None then fs(a \<mapsto> Directory) else fs) fs as q =
     (if fs q = None \<and> q \<in> set as then Some Directory else fs q)"
  by (induction as arbitrary: fs) auto

lemma mkdir_each_ok:
  "\<forall>a \<in> set as. \<forall>c. fs a \<noteq> Some (File c) \<Longrightarrow>
     mkdir_each fs d as =
       Inr (foldl (\<lambda>fs a. if fs a = None then fs(a \<mapsto> Directory) else fs) fs as)"
proof (induction as arbitrary: fs)
  case Nil
  then show ?case by simp
next
  case (Cons a as)
  let ?f = "\<lambda>fs a. if fs a = None then fs(a \<mapsto> Directory) else fs"
  show ?case
  proof (cases "fs a")
    case None
    have step: "mkdir_each fs d (a # as) = mkdir_each (fs(a \<mapsto> Directory)) d as"
      using None by simp
    have fold: "foldl ?f fs (a # as) = foldl ?f (fs(a \<mapsto> Directory)) as"
      using None by simp
    have "mkdir_each (fs(a \<mapsto> Directory)) d as = Inr (foldl ?f (fs(a \<mapsto> Directory)) as)"
      by (rule Cons.IH) (use Cons.prems in simp)
    then show ?thesis by (simp only: step fold)
  next
    case (Some n)
    with Cons.prems have n: "n = Directory" by (cases n) auto
    have step: "mkdir_each fs d (a # as) = mkdir_each fs d as"
      using Some n by simp
    have fold: "foldl ?f fs (a # as) = foldl ?f fs as"
      using Some by simp
    have "mkdir_each fs d as = Inr (foldl ?f fs as)"
      by (rule Cons.IH) (use Cons.prems in simp)
    then show ?thesis by (simp only: step fold)
  qed
qed

lemma mkdir_each_file:
  "a \<in> set as \<Longrightarrow> fs a = Some (File c) \<Longrightarrow> \<exists>e. mkdir_each fs d as = Inl e"
proof (induction as arbitrary: fs)
  case Nil
  then show ?case by simp
next
  case (Cons b as)
  show ?case
  proof (cases "b = a")
    case True
    with Cons.prems show ?thesis by simp
  next
    case False
    with Cons.prems have a: "a \<in> set as" by simp
    from False Cons.prems have u: "(fs(b \<mapsto> Directory)) a = Some (File c)" by simp
    have 1: "\<exists>e. mkdir_each (fs(b \<mapsto> Directory)) d as = Inl e"
      using a u by (rule Cons.IH)
    have 2: "\<exists>e. mkdir_each fs d as = Inl e"
      using a Cons.prems(2) by (rule Cons.IH)
    show ?thesis
    proof (cases "fs b")
      case None
      with 1 show ?thesis by (simp only: mkdir_each.simps option.case)
    next
      case (Some n)
      with 2 show ?thesis by (cases n) simp_all
    qed
  qed
qed

lemma writable_iff:
  "writable rt fs p \<longleftrightarrow>
     (\<forall>a \<in> set (ancestors (dirname p)). \<forall>c. fs a \<noteq> Some (File c)) \<and>
     fs (tempPath rt p) \<noteq> Some Directory \<and> fs p \<noteq> Some Directory"
  by (auto simp: writable_def list_all_iff split: option.splits node.splits)

lemma tempPath_neq: "tempPath rt p \<noteq> p"
  by (simp add: tempPath_def)


lemma writeFileAtomic_blocked:
  "\<not> writable rt fs p \<Longrightarrow> p \<notin> set (ancestors (dirname p)) \<Longrightarrow>
   tempPath rt p \<notin> set (ancestors (dirname p)) \<Longrightarrow>
     \<exists>e fs'. writeFileAtomic rt fs p c = (Some e, fs')"
proof -
  assume nw: "\<not> writable rt fs p" and pa: "p \<notin> set (ancestors (dirname p))"
    and ta: "tempPath rt p \<notin> set (ancestors (dirname p))"
  let ?fs1 = "foldl (\<lambda>fs a. if fs a = None then fs(a \<mapsto> Directory) else fs) fs (ancestors (dirname p))"
  show ?thesis
  proof (cases "\<forall>a \<in> set (ancestors (dirname p)). \<forall>c. fs a \<noteq> Some (File c)")
    case False
    then obtain a c' where "a \<in> set (ancestors (dirname p))" "fs a = Some (File c')" by blast
    then have "\<exists>e. mkdir_each fs (dirname p) (ancestors (dirname p)) = Inl e"
      by (rule mkdir_each_file)
    then show ?thesis
      by (auto simp: writeFileAtomic_def mkdir_recursive_def)
  next
    case True
    then have m: "mkdir_recursive fs (dirname p) = Inr ?fs1"
      by (simp add: mkdir_recursive_def mkdir_each_ok)
    show ?thesis
    proof (cases "fs (tempPath rt p) = Some Directory")
      case True
      with ta have "?fs1 (tempPath rt p) = Some Directory" by (simp add: foldl_mkdir)
      then show ?thesis by (simp add: writeFileAtomic_def m writeFile_def)
    next
      case False
      with ta have "?fs1 (tempPath rt p) \<noteq> Some Directory" by (simp add: foldl_mkdir)
      then have wf: "writeFile ?fs1 (tempPath rt p) c = Inr (?fs1(tempPath rt p \<mapsto> File c))"
        by (simp add: writeFile_def)
      from nw True False have "fs p = Some Directory" by (simp add: writable_iff)
      with pa have "(?fs1(tempPath rt p \<mapsto> File c)) p = Some Directory"
        by (simp add: foldl_mkdir tempPath_neq [symmetric])
      then show ?thesis by (simp add: writeFileAtomic_def m wf rename_def)
    qed
  qed
qed





subsection \<open>The destinations\<close>







subsection \<open>What a failed fetch leaves behind\<close>












text \<open>
  A regular file where the directory of a destination is to be made: the first write
  rejects, the run ends with the error of \<^verbatim>\<open>mkdir\<close> and not with an HTTP error, and
  nothing is written.
\<close>

lemma sync_blocked_by_file:
  "syncBrowserbaseSkills
      \<lparr> homedir = ''/home/u'', cwd = ''/w'', pid = 7, now = (\<lambda>p. 42) \<rparr>
      NotAFunction
      \<lparr> opt_targetRoot = Some ''/r'', opt_ref = None,
        opt_fetchImpl = Some (Function (\<lambda>url.
          if url = ''https://raw.githubusercontent.com/browserbase/skills/main/skills/browser-automation/SKILL.md''
          then Inr \<lparr> ok = True, status = 200, body = ''# skill'' \<rparr>
          else Inr \<lparr> ok = False, status = 404, body = [] \<rparr>)) \<rparr>
      [''/r'' \<mapsto> Directory, ''/r/browser-automation'' \<mapsto> File ''x''] =
     (Inl (FileSystem (EEXIST ''/r/browser-automation'')),
      [''/r'' \<mapsto> Directory, ''/r/browser-automation'' \<mapsto> File ''x''])"
proof -
  let ?rt = "\<lparr> homedir = ''/home/u'', cwd = ''/w'', pid = 7, now = (\<lambda>p. 42) \<rparr>"
  let ?fs = "[''/r'' \<mapsto> Directory, ''/r/browser-automation'' \<mapsto> File ''x'']"
  have root: "resolveSkillsRoot ?rt (Some ''/r'') = ''/r''"
    by (simp add: resolveSkillsRoot_def trim_def is_js_space_def path_resolve_def
        normalizeString_def normalize_segment_def)
  have d: "path_join [''/r'', path_join [''browser-automation'', ''SKILL.md'']] =
      ''/r/browser-automation/SKILL.md''"
    by (simp add: path_join_names segment_names path_join_destinations root_prefix_examples)
  have dn: "dirname ''/r/browser-automation/SKILL.md'' = ''/r/browser-automation''"
    using dirname_append [of "''SKILL.md''" "''/r/browser-automation''"] by simp
  have a: "ancestors ''/r/browser-automation'' = [''/r'', ''/r/browser-automation'']"
    by (simp add: ancestors_def)
  have m: "mkdir_recursive ?fs ''/r/browser-automation'' = Inl (EEXIST ''/r/browser-automation'')"
    by (simp add: mkdir_recursive_def a)
  have w: "writeFileAtomic ?rt ?fs ''/r/browser-automation/SKILL.md'' ''# skill'' =
      (Some (EEXIST ''/r/browser-automation''), ?fs)"
    by (simp add: writeFileAtomic_def dn m)
  have t: "trim ''# skill'' \<noteq> []"
    by (simp add: trim_def is_js_space_def)
  show ?thesis
    by (simp add: syncBrowserbaseSkills_def root normalizeRef_def DEFAULT_SKILLS_REF_def
        SKILL_FILE_MAP_def sourceUrl_def SKILLS_REPO_RAW_BASE_def downloadText_def d w t
        del: fun_upd_apply)
qed




end
